theory Spec2Isabelle
  imports Complex_Main
begin

section \<open>Shared vocabulary: contexts, responses, errors\<close>

text \<open>
  Durations and clock readings are whole nanoseconds (Go's \<open>time.Duration\<close> and the
  monotonic reading of \<open>time.Now()\<close>), modelled as \<open>int\<close>.
\<close>

type_synonym duration = int

definition Millisecond :: duration where
  "Millisecond = 1000000"

definition Second :: duration where
  "Second = 1000000000"

text \<open>The two values \<open>ctx.Err()\<close> can return once a context is done.\<close>

datatype ctx_err = Canceled | DeadlineExceeded

text \<open>
  A request, as far as the resiliency layer reads it: method, URL and the context of
  \<open>request.HTTPRequest().Context()\<close>. The context is done from clock reading
  \<open>doneAt\<close> on (\<open>None\<close>: it is never done), and \<open>ctx.Err()\<close> is then \<open>ctxErr\<close>.
\<close>

record http_request =
  Method :: string
  URL :: string
  doneAt :: "int option"
  ctxErr :: ctx_err

definition ctx_Done :: "http_request \<Rightarrow> int \<Rightarrow> bool" where
  "ctx_Done req now = (case doneAt req of None \<Rightarrow> False | Some c \<Rightarrow> c \<le> now)"

record http_response =
  HttpResp_StatusCode :: int
  RequestRef :: http_request

text \<open>
  Go \<open>error\<close> values (\<open>HTTPError\<close> is the struct of package models). \<open>ErrorString\<close> is the
  result of \<open>errors.New\<close>; \<open>NetError t\<close> is an error implementing \<open>net.Error\<close> whose
  \<open>Timeout()\<close> is \<open>t\<close> (every error of \<open>http.Client.Do\<close> is a \<open>*url.Error\<close>, which
  does); \<open>ContextError\<close> is a value of \<open>ctx.Err()\<close>. A nil \<open>error\<close> or a nil pointer is
  \<open>None\<close> of an option type.
\<close>

datatype go_error =
    ErrorString string
  | NetError bool
  | ContextError ctx_err
  | HTTPErr HTTPError
and HTTPError =
    HTTPError (Request: "http_request option") (Response: "http_response option")
              (StatusCode: int) (Message: string) (Err: "go_error option")

text \<open>
  \<open>errors.As(err, &netErr)\<close> with \<open>netErr\<close> of type \<open>net.Error\<close>: the first error of the
  \<open>Unwrap\<close> chain that implements \<open>net.Error\<close>, given by its \<open>Timeout()\<close>.
  \<open>context.DeadlineExceeded\<close> implements the interface with \<open>Timeout() = true\<close>;
  \<open>context.Canceled\<close> and \<open>HTTPError\<close> itself do not.
\<close>

fun As_net_Error :: "go_error \<Rightarrow> bool option"
  and Unwrap_As_net_Error :: "HTTPError \<Rightarrow> bool option" where
  "As_net_Error (ErrorString s) = None"
| "As_net_Error (NetError t) = Some t"
| "As_net_Error (ContextError Canceled) = None"
| "As_net_Error (ContextError DeadlineExceeded) = Some True"
| "As_net_Error (HTTPErr h) = Unwrap_As_net_Error h"
| "Unwrap_As_net_Error (HTTPError rq rs sc m None) = None"
| "Unwrap_As_net_Error (HTTPError rq rs sc m (Some e)) = As_net_Error e"

definition IsTimeout :: "HTTPError \<Rightarrow> bool" where
  "IsTimeout e =
     (case Err e of
        None \<Rightarrow> False
      | Some c \<Rightarrow> (case As_net_Error c of Some t \<Rightarrow> t | None \<Rightarrow> False))"

definition IsTemporary :: "HTTPError \<Rightarrow> bool" where
  "IsTemporary e =
     (if Err e = None
      then (if StatusCode e \<ge> 500 \<and> StatusCode e < 600 then True else False)
      else if IsTimeout e then True
      else if StatusCode e \<ge> 500 \<and> StatusCode e < 600 then True
      else False)"

definition IsClientError :: "HTTPError \<Rightarrow> bool" where
  "IsClientError e = (StatusCode e \<ge> 400 \<and> StatusCode e < 500)"

definition IsServerError :: "HTTPError \<Rightarrow> bool" where
  "IsServerError e = (StatusCode e \<ge> 500 \<and> StatusCode e < 600)"

definition IsNetworkError :: "HTTPError \<Rightarrow> bool" where
  "IsNetworkError e =
     (case Err e of None \<Rightarrow> False | Some c \<Rightarrow> As_net_Error c \<noteq> None)"

definition maxDuration :: duration where
  "maxDuration = 2 ^ 63 - 1"

definition minDuration :: duration where
  "minDuration = - (2 ^ 63)"

section \<open>RetryPolicy (package resiliency)\<close>

text \<open>
  Go's \<open>int\<close> counters are modelled as unbounded \<open>int\<close>: no counter of this code comes
  near 63 bits. A finite \<open>float64\<close> is modelled by the real number it denotes and
  its arithmetic is taken exact (rounding is not modelled; with the default
  multiplier 2 and delays of whole nanoseconds it is exact in Go as well). A
  \<open>float64\<close> result is \<open>None\<close> when it is not a finite number (an infinity or NaN).
\<close>

record RetryPolicy =
  maxAttempts :: int
  initialDelay :: duration
  maxDelay :: duration
  multiplier :: real
  retryableErrors :: "int list"

definition NewRetryPolicy :: "int \<Rightarrow> RetryPolicy" where
  "NewRetryPolicy n =
     \<lparr> maxAttempts = n, initialDelay = 100 * Millisecond, maxDelay = 30 * Second,
       multiplier = 2, retryableErrors = [408, 429, 500, 502, 503, 504] \<rparr>"

definition NewRetryPolicyWithConfig :: "int \<Rightarrow> duration \<Rightarrow> duration \<Rightarrow> real \<Rightarrow> RetryPolicy" where
  "NewRetryPolicyWithConfig n initial maxd mult =
     \<lparr> maxAttempts = n, initialDelay = initial, maxDelay = maxd,
       multiplier = mult, retryableErrors = [408, 429, 500, 502, 503, 504] \<rparr>"

text \<open>
  The type assertion \<open>err.(*models.HTTPError)\<close> succeeds on \<open>HTTPErr\<close> only; the loop
  over \<open>retryableErrors\<close> is list membership.
\<close>

definition ShouldRetry :: "RetryPolicy \<Rightarrow> go_error option \<Rightarrow> int \<Rightarrow> bool" where
  "ShouldRetry rp err attempt =
     (if attempt \<ge> maxAttempts rp then False
      else case err of
             Some (HTTPErr httpErr) \<Rightarrow>
               (if IsTimeout httpErr \<or> IsTemporary httpErr then True
                else if StatusCode httpErr \<in> set (retryableErrors rp) then True
                else if IsClientError httpErr then False
                else if IsServerError httpErr then True
                else False)
           | _ \<Rightarrow> False)"

type_synonym float64 = "real option"

definition MaxFloat64 :: real where
  "MaxFloat64 = (2 ^ 53 - 1) * 2 ^ 971"

definition finite64 :: "real \<Rightarrow> float64" where
  "finite64 x = (if \<bar>x\<bar> \<le> MaxFloat64 then Some x else None)"

text \<open>
  \<open>math.Pow(x, y)\<close> for a finite \<open>x\<close> and a whole-numbered \<open>y\<close>, which is all
  \<open>GetDelay\<close> passes (\<open>float64(attempt-1)\<close>). \<open>Pow(0, y)\<close> is an infinity for \<open>y < 0\<close>.
\<close>

definition math_Pow :: "real \<Rightarrow> int \<Rightarrow> float64" where
  "math_Pow x y =
     (if y \<ge> 0 then finite64 (x ^ nat y)
      else if x = 0 then None
      else finite64 (1 / x ^ nat (- y)))"

definition float64_mul :: "float64 \<Rightarrow> float64 \<Rightarrow> float64" where
  "float64_mul a b = (case (a, b) of (Some x, Some y) \<Rightarrow> finite64 (x * y) | _ \<Rightarrow> None)"

definition trunc_toward_zero :: "real \<Rightarrow> int" where
  "trunc_toward_zero x = (if x \<ge> 0 then \<lfloor>x\<rfloor> else \<lceil>x\<rceil>)"

text \<open>
  The conversion \<open>time.Duration(delay)\<close> of a \<open>float64\<close> to \<open>int64\<close> discards the
  fraction. When the value does not fit \<open>int64\<close> the Go specification leaves the
  result to the implementation; that result is the parameter \<open>impl\<close>. On amd64 it is
  the smallest \<open>int64\<close> whatever the operand (\<open>amd64_conversion\<close>).
\<close>

definition float64_to_Duration :: "(float64 \<Rightarrow> int) \<Rightarrow> float64 \<Rightarrow> duration" where
  "float64_to_Duration impl f =
     (case f of
        Some x \<Rightarrow>
          (if minDuration \<le> trunc_toward_zero x \<and> trunc_toward_zero x \<le> maxDuration then trunc_toward_zero x
           else impl f)
      | None \<Rightarrow> impl f)"

definition amd64_conversion :: "float64 \<Rightarrow> int" where
  "amd64_conversion f = minDuration"

definition GetDelay :: "(float64 \<Rightarrow> int) \<Rightarrow> RetryPolicy \<Rightarrow> int \<Rightarrow> duration" where
  "GetDelay impl rp attempt =
     (if attempt = 0 then 0
      else
        let delay = float64_mul (Some (real_of_int (initialDelay rp)))
                      (math_Pow (multiplier rp) (attempt - 1));
            delayDuration = float64_to_Duration impl delay
        in if delayDuration > maxDelay rp then maxDelay rp else delayDuration)"

definition MaxAttempts :: "RetryPolicy \<Rightarrow> int" where
  "MaxAttempts rp = maxAttempts rp"

section \<open>Bulkhead (package resiliency)\<close>

text \<open>
  The buffered channel \<open>semaphore\<close> is modelled by its length and its capacity;
  \<open>make(chan struct{}, maxConcurrency)\<close> fixes the capacity at construction.
\<close>

record Bulkhead =
  semLen :: nat
  semCap :: nat
  maxConcurrency :: int
  activeCount :: int

definition NewBulkhead :: "int \<Rightarrow> Bulkhead" where
  "NewBulkhead n =
     (let m = (if n \<le> 0 then 10 else n)
      in \<lparr> semLen = 0, semCap = nat m, maxConcurrency = m, activeCount = 0 \<rparr>)"

definition MaxConcurrency :: "Bulkhead \<Rightarrow> int" where
  "MaxConcurrency b = maxConcurrency b"

definition ActiveRequests :: "Bulkhead \<Rightarrow> int" where
  "ActiveRequests b = activeCount b"

datatype bulkhead_error = CtxErr ctx_err | MaximumConcurrencyReached

text \<open>
  The \<open>select\<close> of \<open>Execute\<close>. A send on the channel is ready when the channel is not
  full; \<open>ctx.Done()\<close> is ready when the context is done (\<open>done = Some e\<close>, with
  \<open>e\<close> the value of \<open>ctx.Err()\<close>); \<open>default\<close> runs only when neither is ready. When
  both communications are ready Go chooses one at random: \<open>pick\<close> is that choice
  (\<open>True\<close> for the send).
\<close>

datatype admission = Acquired | Rejected bulkhead_error

definition select_slot :: "ctx_err option \<Rightarrow> bool \<Rightarrow> Bulkhead \<Rightarrow> admission" where
  "select_slot done pick b =
     (let sendReady = semLen b < semCap b
      in case done of
           None \<Rightarrow> (if sendReady then Acquired else Rejected MaximumConcurrencyReached)
         | Some e \<Rightarrow> (if sendReady \<and> pick then Acquired else Rejected (CtxErr e)))"

definition acquire :: "Bulkhead \<Rightarrow> Bulkhead" where
  "acquire b = b\<lparr> semLen := semLen b + 1, activeCount := activeCount b + 1 \<rparr>"

text \<open>
  The deferred function: receive from the channel, then decrement the counter. It
  runs only after \<open>acquire\<close>, so the channel is not empty.
\<close>

definition release :: "Bulkhead \<Rightarrow> Bulkhead" where
  "release b = b\<lparr> semLen := semLen b - 1, activeCount := activeCount b - 1 \<rparr>"

text \<open>
  The wrapped function acts on some outside world \<open>'w\<close> and either returns its result
  or panics. \<open>Execute\<close> returns what it returned, propagates the panic, or reports the
  rejection; the deferred release runs in the first two cases.
\<close>

datatype 'r fn_outcome = Returned 'r | Panicked

datatype 'r exec_outcome = Completed 'r | Propagated_panic | Failed bulkhead_error

definition Bulkhead_Execute ::
  "ctx_err option \<Rightarrow> bool \<Rightarrow> ('w \<Rightarrow> 'r fn_outcome \<times> 'w) \<Rightarrow> Bulkhead \<Rightarrow> 'w
     \<Rightarrow> 'r exec_outcome \<times> Bulkhead \<times> 'w" where
  "Bulkhead_Execute done pick fn b w =
     (case select_slot done pick b of
        Acquired \<Rightarrow>
          (let b1 = acquire b;
               (out, w') = fn w;
               b2 = release b1
           in case out of
                Returned r \<Rightarrow> (Completed r, b2, w')
              | Panicked \<Rightarrow> (Propagated_panic, b2, w'))
      | Rejected e \<Rightarrow> (Failed e, b, w))"

text \<open>
  Calls in flight at the same time: each has passed the \<open>select\<close> and has not yet run
  its deferred release. \<open>admit_all\<close> lets a list of callers (each with its context
  state and its random choice) arrive one after the other while none completes, and
  returns which were admitted.
\<close>

fun admit_all :: "(ctx_err option \<times> bool) list \<Rightarrow> Bulkhead \<Rightarrow> admission list \<times> Bulkhead" where
  "admit_all [] b = ([], b)"
| "admit_all ((done, pick) # cs) b =
     (case select_slot done pick b of
        Acquired \<Rightarrow> (let (as, b') = admit_all cs (acquire b) in (Acquired # as, b'))
      | Rejected e \<Rightarrow> (let (as, b') = admit_all cs b in (Rejected e # as, b')))"

section \<open>CircuitBreaker (package resiliency)\<close>

text \<open>
  \<open>CircuitState\<close> is an \<open>int\<close> with three named constants; no code path stores any
  other value, so the \<open>default\<close> branch of \<open>canExecute\<close> is unreachable and the type
  is modelled by its three constants.
\<close>

datatype CircuitState = StateClosed | StateOpen | StateHalfOpen

text \<open>
  A \<open>time.Time\<close> field is \<open>None\<close> while it holds the zero value (it has never been
  assigned) and \<open>Some t\<close> after \<open>time.Now()\<close> read \<open>t\<close>. The lock \<open>mu\<close> makes each of
  \<open>canExecute\<close> and \<open>recordResult\<close> one atomic step; it has no other content.
\<close>

record CircuitBreaker =
  state :: CircuitState
  failureCount :: int
  successCount :: int
  lastFailureTime :: "int option"
  lastSuccessTime :: "int option"
  failureThreshold :: int
  successThreshold :: int
  timeout :: duration

definition NewCircuitBreaker :: "int \<Rightarrow> duration \<Rightarrow> CircuitBreaker" where
  "NewCircuitBreaker threshold tmo =
     \<lparr> state = StateClosed, failureCount = 0, successCount = 0,
       lastFailureTime = None, lastSuccessTime = None,
       failureThreshold = threshold, successThreshold = 2, timeout = tmo \<rparr>"

text \<open>
  \<open>t.Sub(u)\<close>, and \<open>time.Since(t)\<close> at clock reading \<open>now\<close>. Go saturates the difference
  at the ends of the \<open>Duration\<close> range; measured from the zero \<open>Time\<close> (year 1) it is
  the maximum.
\<close>

definition time_Sub :: "int \<Rightarrow> int \<Rightarrow> duration" where
  "time_Sub t u = max minDuration (min maxDuration (t - u))"

definition time_Since :: "int \<Rightarrow> int option \<Rightarrow> duration" where
  "time_Since now t = (case t of None \<Rightarrow> maxDuration | Some t0 \<Rightarrow> time_Sub now t0)"

definition canExecute :: "int \<Rightarrow> CircuitBreaker \<Rightarrow> bool \<times> CircuitBreaker" where
  "canExecute now cb =
     (case state cb of
        StateClosed \<Rightarrow> (True, cb)
      | StateOpen \<Rightarrow>
          (if time_Since now (lastFailureTime cb) > timeout cb
           then (True, cb\<lparr> state := StateHalfOpen, successCount := 0 \<rparr>)
           else (False, cb))
      | StateHalfOpen \<Rightarrow> (True, cb))"

definition onFailure :: "int \<Rightarrow> CircuitBreaker \<Rightarrow> CircuitBreaker" where
  "onFailure now cb =
     (let cb1 = cb\<lparr> failureCount := failureCount cb + 1, lastFailureTime := Some now \<rparr>
      in case state cb1 of
           StateClosed \<Rightarrow>
             (if failureCount cb1 \<ge> failureThreshold cb1
              then cb1\<lparr> state := StateOpen, failureCount := 0 \<rparr>
              else cb1)
         | StateHalfOpen \<Rightarrow> cb1\<lparr> state := StateOpen, failureCount := 0, successCount := 0 \<rparr>
         | StateOpen \<Rightarrow> cb1)"

definition onSuccess :: "int \<Rightarrow> CircuitBreaker \<Rightarrow> CircuitBreaker" where
  "onSuccess now cb =
     (let cb1 = cb\<lparr> lastSuccessTime := Some now \<rparr>
      in case state cb1 of
           StateClosed \<Rightarrow> cb1\<lparr> failureCount := 0 \<rparr>
         | StateHalfOpen \<Rightarrow>
             (let cb2 = cb1\<lparr> successCount := successCount cb1 + 1 \<rparr>
              in if successCount cb2 \<ge> successThreshold cb2
                 then cb2\<lparr> state := StateClosed, failureCount := 0, successCount := 0 \<rparr>
                 else cb2)
         | StateOpen \<Rightarrow> cb1)"

text \<open>\<open>err = None\<close> is Go's \<open>err == nil\<close>.\<close>

definition recordResult :: "int \<Rightarrow> 'e option \<Rightarrow> CircuitBreaker \<Rightarrow> CircuitBreaker" where
  "recordResult now err cb = (if err \<noteq> None then onFailure now cb else onSuccess now cb)"

text \<open>
  Histories used to state the breaker's properties: a list of results recorded one
  after the other, each with the clock reading of its \<open>recordResult\<close>, and a list of
  admission checks, each with its clock reading.
\<close>

fun record_all :: "(int \<times> 'e option) list \<Rightarrow> CircuitBreaker \<Rightarrow> CircuitBreaker" where
  "record_all [] cb = cb"
| "record_all ((t, err) # es) cb = record_all es (recordResult t err cb)"

definition consecutive_failures :: "(int \<times> 'e option) list \<Rightarrow> nat" where
  "consecutive_failures es = length (takeWhile (\<lambda>e. snd e \<noteq> None) (rev es))"

fun check_all :: "int list \<Rightarrow> CircuitBreaker \<Rightarrow> bool list \<times> CircuitBreaker" where
  "check_all [] cb = ([], cb)"
| "check_all (t # ts) cb =
     (let (ok, cb1) = canExecute t cb; (oks, cb2) = check_all ts cb1 in (ok # oks, cb2))"


section \<open>RateLimiter (package resiliency)\<close>

text \<open>
  \<open>rate\<close> and \<open>tokens\<close> are \<open>float64\<close> fields, modelled by the real numbers they denote
  with exact arithmetic. \<open>now\<close> is the reading of \<open>time.Now()\<close> inside \<open>refill\<close>; the
  mutex makes \<open>Allow\<close> one atomic step.
\<close>

record RateLimiter =
  rate :: real
  burst :: int
  tokens :: real
  lastRefillTime :: int

definition NewRateLimiter :: "int \<Rightarrow> real \<Rightarrow> int \<Rightarrow> RateLimiter" where
  "NewRateLimiter now r b =
     \<lparr> rate = r, burst = b, tokens = real_of_int b, lastRefillTime = now \<rparr>"

definition Duration_Seconds :: "duration \<Rightarrow> real" where
  "Duration_Seconds d = real_of_int d / 1000000000"

definition refill :: "int \<Rightarrow> RateLimiter \<Rightarrow> RateLimiter" where
  "refill now rl =
     (let elapsed = Duration_Seconds (time_Sub now (lastRefillTime rl));
          tokensToAdd = elapsed * rate rl;
          tokens1 = tokens rl + tokensToAdd;
          tokens2 = (if tokens1 > real_of_int (burst rl) then real_of_int (burst rl) else tokens1)
      in rl\<lparr> tokens := tokens2, lastRefillTime := now \<rparr>)"

definition Allow :: "int \<Rightarrow> RateLimiter \<Rightarrow> bool \<times> RateLimiter" where
  "Allow now rl =
     (let rl1 = refill now rl
      in if tokens rl1 \<ge> 1 then (True, rl1\<lparr> tokens := tokens rl1 - 1 \<rparr>) else (False, rl1))"

text \<open>A history of \<open>Allow\<close> calls, each with the clock reading of its refill.\<close>

fun allow_all :: "int list \<Rightarrow> RateLimiter \<Rightarrow> bool list \<times> RateLimiter" where
  "allow_all [] rl = ([], rl)"
| "allow_all (t # ts) rl =
     (let (ok, rl1) = Allow t rl; (oks, rl2) = allow_all ts rl1 in (ok # oks, rl2))"

section \<open>Transports and decorators (packages client and middleware)\<close>

text \<open>
  What \<open>Send\<close> returns: the pair \<open>(IHTTPResponse, error)\<close>, either of which may be nil.
\<close>

type_synonym result = "http_response option \<times> go_error option"

text \<open>
  The state a chain of decorators runs in: the clock, the number of round trips the
  innermost transport has made so far, and the circuit breaker shared by the chain.
  An \<open>IHTTPClient\<close> is its \<open>Send\<close> method, a function of the request and this state.
\<close>

record world =
  clock :: int
  calls :: nat
  breaker :: CircuitBreaker

type_synonym client = "http_request \<Rightarrow> world \<Rightarrow> result \<times> world"

text \<open>
  A scripted innermost transport: its \<open>n\<close>-th invocation (counted from 0) returns
  \<open>respond n\<close> after \<open>latency n\<close> nanoseconds.
\<close>

record transport =
  respond :: "nat \<Rightarrow> result"
  latency :: "nat \<Rightarrow> duration"

definition transport_Send :: "transport \<Rightarrow> client" where
  "transport_Send tr req w =
     (respond tr (calls w),
      w\<lparr> clock := clock w + latency tr (calls w), calls := calls w + 1 \<rparr>)"









text \<open>
  \<open>CircuitBreaker.Execute\<close>, run on the breaker of the state. The admission check reads
  the clock before \<open>fn\<close> runs, \<open>recordResult\<close> reads it after.
\<close>

definition circuit_open_error :: go_error where
  "circuit_open_error = ErrorString ''circuit breaker is open: request rejected''"

definition CircuitBreaker_Execute :: "(world \<Rightarrow> result \<times> world) \<Rightarrow> world \<Rightarrow> result \<times> world" where
  "CircuitBreaker_Execute fn w =
     (case canExecute (clock w) (breaker w) of
        (False, cb) \<Rightarrow> ((None, Some circuit_open_error), w\<lparr> breaker := cb \<rparr>)
      | (True, cb) \<Rightarrow>
          (case fn (w\<lparr> breaker := cb \<rparr>) of
             ((resp, err), w1) \<Rightarrow>
               ((resp, err), w1\<lparr> breaker := recordResult (clock w1) err (breaker w1) \<rparr>)))"

definition CircuitBreakerDecorator_Send :: "client \<Rightarrow> client" where
  "CircuitBreakerDecorator_Send wrapped req w = CircuitBreaker_Execute (wrapped req) w"

text \<open>
  The interface \<open>IRetryPolicy\<close> as the record of its methods, and the method set of
  \<open>*RetryPolicy\<close> (on a platform whose out-of-range conversion is \<open>impl\<close>).
\<close>

record IRetryPolicy =
  IShouldRetry :: "go_error option \<Rightarrow> int \<Rightarrow> bool"
  IGetDelay :: "int \<Rightarrow> duration"
  IMaxAttempts :: int

definition RetryPolicy_methods :: "(float64 \<Rightarrow> int) \<Rightarrow> RetryPolicy \<Rightarrow> IRetryPolicy" where
  "RetryPolicy_methods impl rp =
     \<lparr> IShouldRetry = ShouldRetry rp, IGetDelay = GetDelay impl rp, IMaxAttempts = MaxAttempts rp \<rparr>"

text \<open>
  The backoff \<open>select\<close> of the retry loop, entered at clock reading \<open>clock w\<close>.
  \<open>time.After(delay)\<close> is ready no earlier than \<open>delay\<close> later: from
  \<open>clock w + max 0 delay + lag\<close> on, where \<open>lag\<close> is whatever the runtime timer and the
  scheduler add; \<open>ctx.Done()\<close> is ready from \<open>doneAt\<close> on. The case that is ready first
  runs, at the moment it becomes ready; when both become ready together Go chooses
  at random, and \<open>pick\<close> is that choice (\<open>True\<close> for the timer). The result is \<open>True\<close>
  when the timer case ran. The clock reading left behind is the one the next
  iteration starts from, so \<open>lag\<close> also stands for the time the loop itself takes
  between two clock readings.
\<close>

definition select_After_or_Done ::
  "http_request \<Rightarrow> bool \<Rightarrow> nat \<Rightarrow> duration \<Rightarrow> world \<Rightarrow> bool \<times> world" where
  "select_After_or_Done req pick lag delay w =
     (let wake = clock w + max 0 delay + int lag
      in case doneAt req of
           None \<Rightarrow> (True, w\<lparr> clock := wake \<rparr>)
         | Some c \<Rightarrow>
             (let c' = max (clock w) c
              in if c' < wake then (False, w\<lparr> clock := c' \<rparr>)
                 else if wake < c' then (True, w\<lparr> clock := wake \<rparr>)
                 else (pick, w\<lparr> clock := wake \<rparr>)))"

definition cancelled :: "http_request \<Rightarrow> string \<Rightarrow> result" where
  "cancelled req msg =
     (None, Some (HTTPErr (HTTPError (Some req) None 0 msg (Some (ContextError (ctxErr req))))))"

text \<open>
  The loop of \<open>RetryDecorator.Send\<close> from the head of iteration \<open>attempt\<close>, with the
  current \<open>lastErr\<close>. \<open>break\<close> and the end of the loop both reach
  \<open>return nil, lastErr\<close>. \<open>pick\<close> and \<open>lag\<close> give the random choice and the timer lag
  of the backoff of each iteration.
\<close>

function retry_loop ::
  "IRetryPolicy \<Rightarrow> (int \<Rightarrow> bool) \<Rightarrow> (int \<Rightarrow> nat) \<Rightarrow> client \<Rightarrow> http_request \<Rightarrow> int
     \<Rightarrow> go_error option \<Rightarrow> world \<Rightarrow> result \<times> world" where
  "retry_loop policy pick lag wrapped req attempt lastErr w =
     (if attempt < IMaxAttempts policy then
        (if ctx_Done req (clock w) then (cancelled req ''request cancelled during retry'', w)
         else
           (case wrapped req w of
              ((resp, err), w1) \<Rightarrow>
                (if err = None then ((resp, None), w1)
                 else if \<not> IShouldRetry policy err attempt then ((None, err), w1)
                 else
                   (case select_After_or_Done req (pick attempt) (lag attempt)
                           (IGetDelay policy attempt) w1 of
                      (True, w2) \<Rightarrow> retry_loop policy pick lag wrapped req (attempt + 1) err w2
                    | (False, w2) \<Rightarrow>
                        (cancelled req ''request cancelled during retry backoff'', w2)))))
      else ((None, lastErr), w))"
  by pat_completeness auto
termination
  by (relation "measure (\<lambda>(policy, pick, lag, wrapped, req, attempt, lastErr, w).
                           nat (IMaxAttempts policy - attempt))") auto

declare retry_loop.simps [simp del]

definition RetryDecorator_Send ::
  "IRetryPolicy \<Rightarrow> (int \<Rightarrow> bool) \<Rightarrow> (int \<Rightarrow> nat) \<Rightarrow> client \<Rightarrow> client" where
  "RetryDecorator_Send policy pick lag wrapped req w =
     retry_loop policy pick lag wrapped req 0 None w"

section \<open>Theorems\<close>

subsection \<open>Bulkhead\<close>

lemma admit_all_live:
  "semLen b + length cs \<le> semCap b \<Longrightarrow> \<forall>c \<in> set cs. fst c = None \<Longrightarrow>
   admit_all cs b = (replicate (length cs) Acquired,
                     b\<lparr> semLen := semLen b + length cs,
                        activeCount := activeCount b + int (length cs) \<rparr>)"
proof (induction cs arbitrary: b)
  case Nil
  then show ?case by simp
next
  case (Cons c cs)
  obtain d p where c: "c = (d, p)" by (cases c)
  from Cons.prems c have d: "d = None" by simp
  from Cons.prems have room: "semLen b < semCap b" by simp
  have sel: "select_slot None p b = Acquired"
    using room by (simp add: select_slot_def)
  have "semLen (acquire b) + length cs \<le> semCap (acquire b)"
    using Cons.prems(1) by (simp add: acquire_def)
  moreover have "\<forall>c \<in> set cs. fst c = None"
    using Cons.prems(2) by simp
  ultimately have "admit_all cs (acquire b) =
      (replicate (length cs) Acquired,
       (acquire b)\<lparr> semLen := semLen (acquire b) + length cs,
                    activeCount := activeCount (acquire b) + int (length cs) \<rparr>)"
    by (rule Cons.IH)
  then show ?case
    using sel by (simp add: c d acquire_def)
qed

text \<open>
  C10. For every \<open>n \<le> 0\<close>, \<open>NewBulkhead n\<close> does not reject the argument: it builds a
  bulkhead whose \<open>MaxConcurrency\<close> is 10 and whose semaphore has 10 free slots, so
  that ten callers with live contexts arriving while none has finished are all
  admitted, and an eleventh is rejected with the capacity error.
\<close>

theorem NewBulkhead_nonpositive_defaults_to_10:
  assumes "n \<le> 0"
  shows "MaxConcurrency (NewBulkhead n) = 10
       \<and> semCap (NewBulkhead n) = 10 \<and> semLen (NewBulkhead n) = 0
       \<and> fst (admit_all (replicate 11 (None, pick)) (NewBulkhead n))
           = replicate 10 Acquired @ [Rejected MaximumConcurrencyReached]
       \<and> ActiveRequests (snd (admit_all (replicate 11 (None, pick)) (NewBulkhead n))) = 10"
proof -
  let ?b = "NewBulkhead n"
  have cap: "semCap ?b = 10" and len: "semLen ?b = 0" and mc: "MaxConcurrency ?b = 10"
    and ac: "activeCount ?b = 0"
    using assms by (simp_all add: NewBulkhead_def MaxConcurrency_def)
  have ten: "admit_all (replicate 10 (None, pick)) ?b
      = (replicate 10 Acquired, ?b\<lparr> semLen := 10, activeCount := 10 \<rparr>)"
    using admit_all_live [of ?b "replicate 10 (None, pick)"] cap len ac by simp
  have app: "admit_all (xs @ ys) b
      = (let (as, b1) = admit_all xs b; (bs, b2) = admit_all ys b1 in (as @ bs, b2))" for xs ys b
    by (induction xs arbitrary: b) (auto split: admission.splits prod.splits)
  have eleven: "replicate 11 (None, pick) = replicate 10 (None, pick) @ [(None, pick)]"
    by (simp add: numeral_eq_Suc replicate_append_same)
  have last: "admit_all [(None, pick)] (?b\<lparr> semLen := 10, activeCount := 10 \<rparr>)
      = ([Rejected MaximumConcurrencyReached], ?b\<lparr> semLen := 10, activeCount := 10 \<rparr>)"
    using cap by (simp add: select_slot_def)
  have "admit_all (replicate 11 (None, pick)) ?b
      = (replicate 10 Acquired @ [Rejected MaximumConcurrencyReached],
         ?b\<lparr> semLen := 10, activeCount := 10 \<rparr>)"
    by (simp only: eleven app ten last Let_def prod.case)
  then show ?thesis
    using cap len mc by (simp add: ActiveRequests_def)
qed

theorem NewBulkhead_nonpositive_defaults_to_10_witness:
  "(-3::int) \<le> 0 \<and> MaxConcurrency (NewBulkhead (-3)) = 10
   \<and> fst (admit_all (replicate 11 (None, True)) (NewBulkhead (-3)))
       = replicate 10 Acquired @ [Rejected MaximumConcurrencyReached]"
  using NewBulkhead_nonpositive_defaults_to_10 [of "-3" True] by simp

text \<open>
  C8. When every slot is occupied, \<open>Execute\<close> fails at once with the capacity error,
  unless the context is already done, in which case it returns \<open>ctx.Err()\<close>; in both
  cases the wrapped function is not invoked (the outside world is untouched, whatever
  the function would do) and nothing is queued (the bulkhead is unchanged). When the
  call is admitted, the slot is released whether the function returns or panics: the
  bulkhead is back in the state it had before the call.
\<close>

theorem Bulkhead_Execute_rejects_when_full_and_always_releases:
  "(semLen b = semCap b \<longrightarrow>
      Bulkhead_Execute None pick fn b w = (Failed MaximumConcurrencyReached, b, w)
    \<and> Bulkhead_Execute (Some e) pick fn b w = (Failed (CtxErr e), b, w))
 \<and> (select_slot done pick b = Acquired \<longrightarrow>
      Bulkhead_Execute done pick fn b w =
        (case fst (fn w) of Returned r \<Rightarrow> Completed r | Panicked \<Rightarrow> Propagated_panic,
         b, snd (fn w)))"
proof -
  have rel: "release (acquire b) = b"
    by (simp add: release_def acquire_def)
  have full: "semLen b = semCap b \<Longrightarrow> select_slot None pick b = Rejected MaximumConcurrencyReached
      \<and> select_slot (Some e) pick b = Rejected (CtxErr e)"
    by (simp add: select_slot_def)
  have adm: "select_slot done pick b = Acquired \<Longrightarrow>
      Bulkhead_Execute done pick fn b w =
        (case fst (fn w) of Returned r \<Rightarrow> Completed r | Panicked \<Rightarrow> Propagated_panic,
         b, snd (fn w))"
    by (cases "fn w") (simp add: Bulkhead_Execute_def rel split: fn_outcome.splits)
  show ?thesis
    using full adm by (simp add: Bulkhead_Execute_def)
qed

theorem Bulkhead_Execute_rejects_when_full_and_always_releases_witness:
  "Bulkhead_Execute None True (\<lambda>n::nat. (Returned (), n + 1))
      (acquire (acquire (NewBulkhead 2))) 0
     = (Failed MaximumConcurrencyReached, acquire (acquire (NewBulkhead 2)), 0)
 \<and> Bulkhead_Execute (Some Canceled) True (\<lambda>n::nat. (Returned (), n + 1))
      (acquire (acquire (NewBulkhead 2))) 0
     = (Failed (CtxErr Canceled), acquire (acquire (NewBulkhead 2)), 0)
 \<and> Bulkhead_Execute None True (\<lambda>n::nat. (Panicked :: unit fn_outcome, n + 1))
      (acquire (NewBulkhead 2)) 0
     = (Propagated_panic, acquire (NewBulkhead 2), 1)"
proof -
  have full: "semLen (acquire (acquire (NewBulkhead 2))) = semCap (acquire (acquire (NewBulkhead 2)))"
    by (simp add: acquire_def NewBulkhead_def)
  have room: "select_slot None True (acquire (NewBulkhead 2)) = Acquired"
    by (simp add: select_slot_def acquire_def NewBulkhead_def)
  show ?thesis
    using Bulkhead_Execute_rejects_when_full_and_always_releases
            [of "acquire (acquire (NewBulkhead 2))" True "\<lambda>n::nat. (Returned (), n + 1)" 0 Canceled None]
          Bulkhead_Execute_rejects_when_full_and_always_releases
            [of "acquire (NewBulkhead 2)" True "\<lambda>n::nat. (Panicked :: unit fn_outcome, n + 1)" 0 Canceled None]
          full room
    by simp
qed

subsection \<open>CircuitBreaker\<close>

lemma check_all_append:
  "check_all (ts @ us) cb =
     (let (oks, cb1) = check_all ts cb; (oks', cb2) = check_all us cb1 in (oks @ oks', cb2))"
  by (induction ts arbitrary: cb) (simp_all add: split_beta Let_def)

lemma check_all_rejected:
  "state cb = StateOpen \<Longrightarrow>
   \<forall>t \<in> set ts. time_Since t (lastFailureTime cb) \<le> timeout cb \<Longrightarrow>
   check_all ts cb = (replicate (length ts) False, cb)"
  by (induction ts) (simp_all add: canExecute_def)

text \<open>
  C6. Take a breaker in the Open state (however it got there) and any admission
  checks made while the time since \<open>lastFailureTime\<close> has not exceeded the timeout:
  each returns false and leaves the breaker as it was. The first check made once
  more than the timeout has elapsed returns true and moves the breaker to HalfOpen
  with \<open>successCount\<close> set to 0, changing nothing else.
\<close>

theorem canExecute_open_rejects_until_timeout_then_half_open:
  assumes "state cb = StateOpen"
    and "\<forall>t \<in> set early. time_Since t (lastFailureTime cb) \<le> timeout cb"
    and "time_Since late (lastFailureTime cb) > timeout cb"
  shows "check_all (early @ [late]) cb
           = (replicate (length early) False @ [True],
              cb\<lparr> state := StateHalfOpen, successCount := 0 \<rparr>)"
proof -
  have "check_all early cb = (replicate (length early) False, cb)"
    using assms(1,2) by (rule check_all_rejected)
  moreover have "canExecute late cb = (True, cb\<lparr> state := StateHalfOpen, successCount := 0 \<rparr>)"
    using assms(1,3) by (simp add: canExecute_def)
  ultimately show ?thesis
    by (simp add: check_all_append)
qed

theorem canExecute_open_rejects_until_timeout_then_half_open_witness:
  "check_all ([2000000000, 2500000000, 3000000000] @ [3000000001])
     (onFailure 2000000000 (onFailure 1000000000 (NewCircuitBreaker 2 Second)))
   = (replicate (length [2000000000, 2500000000, 3000000000 :: int]) False @ [True],
      (onFailure 2000000000 (onFailure 1000000000 (NewCircuitBreaker 2 Second)))
        \<lparr> state := StateHalfOpen, successCount := 0 \<rparr>)"
proof -
  let ?cb = "onFailure 2000000000 (onFailure 1000000000 (NewCircuitBreaker 2 Second))"
  have st: "state ?cb = StateOpen" and lf: "lastFailureTime ?cb = Some 2000000000"
    and tm: "timeout ?cb = 1000000000"
    by (simp_all add: onFailure_def NewCircuitBreaker_def Second_def)
  have early: "\<forall>t \<in> set [2000000000, 2500000000, 3000000000].
      time_Since t (lastFailureTime ?cb) \<le> timeout ?cb"
    by (simp add: lf tm time_Since_def time_Sub_def minDuration_def maxDuration_def)
  have late: "time_Since 3000000001 (lastFailureTime ?cb) > timeout ?cb"
    by (simp add: lf tm time_Since_def time_Sub_def minDuration_def maxDuration_def)
  show ?thesis
    using canExecute_open_rejects_until_timeout_then_half_open [OF st early late] .
qed

lemma record_all_append:
  "record_all (es @ fs) cb = record_all fs (record_all es cb)"
  by (induction es arbitrary: cb) auto

lemma consecutive_failures_snoc:
  "consecutive_failures (es @ [(t, err)]) = (if err \<noteq> None then Suc (consecutive_failures es) else 0)"
  by (simp add: consecutive_failures_def)

lemma recordResult_closed:
  "state cb = StateClosed \<Longrightarrow>
   recordResult t err cb =
     (if err \<noteq> None
      then (if failureCount cb + 1 \<ge> failureThreshold cb
            then cb\<lparr> failureCount := 0, lastFailureTime := Some t, state := StateOpen \<rparr>
            else cb\<lparr> failureCount := failureCount cb + 1, lastFailureTime := Some t \<rparr>)
      else cb\<lparr> lastSuccessTime := Some t, failureCount := 0 \<rparr>)"
  by (simp add: recordResult_def onFailure_def onSuccess_def Let_def)

lemma recordResult_open:
  "state cb = StateOpen \<Longrightarrow> state (recordResult t err cb) = StateOpen"
  by (simp add: recordResult_def onFailure_def onSuccess_def Let_def)

lemma recordResult_threshold:
  "failureThreshold (recordResult t err cb) = failureThreshold cb"
  by (simp add: recordResult_def onFailure_def onSuccess_def Let_def split: CircuitState.splits)

lemma closed_run_invariant:
  assumes "state cb0 = StateClosed" and "failureCount cb0 = 0"
  shows "failureThreshold (record_all es cb0) = failureThreshold cb0
       \<and> (state (record_all es cb0) = StateClosed \<or> state (record_all es cb0) = StateOpen)
       \<and> (state (record_all es cb0) = StateClosed \<longrightarrow>
            failureCount (record_all es cb0) = int (consecutive_failures es)
          \<and> int (consecutive_failures es) < max 1 (failureThreshold cb0))"
proof (induction es rule: rev_induct)
  case Nil
  show ?case using assms by (simp add: consecutive_failures_def)
next
  case (snoc e es)
  obtain t err where e: "e = (t, err)" by (cases e)
  let ?cb = "record_all es cb0"
  have run: "record_all (es @ [(t, err)]) cb0 = recordResult t err ?cb"
    by (simp add: record_all_append)
  from snoc have thr: "failureThreshold ?cb = failureThreshold cb0"
    and st: "state ?cb = StateClosed \<or> state ?cb = StateOpen"
    and cl: "state ?cb = StateClosed \<Longrightarrow>
               failureCount ?cb = int (consecutive_failures es)
             \<and> int (consecutive_failures es) < max 1 (failureThreshold cb0)"
    by simp_all
  from st show ?case
  proof
    assume c: "state ?cb = StateClosed"
    show ?thesis
      unfolding e run recordResult_closed [OF c] consecutive_failures_snoc
      using cl [OF c] thr c by auto
  next
    assume "state ?cb = StateOpen"
    then show ?thesis
      unfolding e run by (simp add: recordResult_open recordResult_threshold thr)
  qed
qed

lemma record_all_open_iff_streak:
  assumes "state cb0 = StateClosed" and "failureCount cb0 = 0"
  shows "state (record_all es cb0) = StateOpen
     \<longleftrightarrow> (\<exists>k \<le> length es. max 1 (failureThreshold cb0) \<le> int (consecutive_failures (take k es)))"
proof (induction es rule: rev_induct)
  case Nil
  show ?case using assms by (simp add: consecutive_failures_def)
next
  case (snoc e es)
  obtain t err where e: "e = (t, err)" by (cases e)
  let ?cb = "record_all es cb0"
  let ?n = "max 1 (failureThreshold cb0)"
  have run: "record_all (es @ [(t, err)]) cb0 = recordResult t err ?cb"
    by (simp add: record_all_append)
  have pre: "(\<exists>k \<le> length (es @ [e]). ?n \<le> int (consecutive_failures (take k (es @ [e]))))
      \<longleftrightarrow> (\<exists>k \<le> length es. ?n \<le> int (consecutive_failures (take k es)))
        \<or> ?n \<le> int (consecutive_failures (es @ [e]))"
    (is "?L \<longleftrightarrow> ?A \<or> ?B")
  proof
    assume ?L
    then obtain k where k: "k \<le> Suc (length es)"
      and p: "?n \<le> int (consecutive_failures (take k (es @ [e])))" by auto
    show "?A \<or> ?B"
    proof (cases "k \<le> length es")
      case True
      then show ?thesis using p by auto
    next
      case False
      with k have "k = Suc (length es)" by simp
      then show ?thesis using p by simp
    qed
  next
    assume "?A \<or> ?B"
    then show ?L
    proof
      assume ?A
      then obtain k where "k \<le> length es" "?n \<le> int (consecutive_failures (take k es))" by auto
      then show ?L by (intro exI [of _ k]) simp
    next
      assume ?B
      then show ?L by (intro exI [of _ "Suc (length es)"]) simp
    qed
  qed
  from closed_run_invariant [OF assms, of es]
  have thr: "failureThreshold ?cb = failureThreshold cb0"
    and st: "state ?cb = StateClosed \<or> state ?cb = StateOpen"
    and cl: "state ?cb = StateClosed \<Longrightarrow>
               failureCount ?cb = int (consecutive_failures es)
             \<and> int (consecutive_failures es) < ?n"
    by simp_all
  from st show ?case
  proof
    assume c: "state ?cb = StateClosed"
    with snoc have noA: "\<not> (\<exists>k \<le> length es. ?n \<le> int (consecutive_failures (take k es)))"
      by simp
    have "state (recordResult t err ?cb) = StateOpen
        \<longleftrightarrow> ?n \<le> int (consecutive_failures (es @ [(t, err)]))"
      unfolding recordResult_closed [OF c] consecutive_failures_snoc
      using cl [OF c] thr c by auto
    then have "state (record_all (es @ [e]) cb0) = StateOpen
        \<longleftrightarrow> ?n \<le> int (consecutive_failures (es @ [e]))"
      by (simp only: e run)
    also have "\<dots> \<longleftrightarrow> (\<exists>k \<le> length (es @ [e]). ?n \<le> int (consecutive_failures (take k (es @ [e]))))"
      using noA by (simp only: pre simp_thms)
    finally show ?thesis .
  next
    assume o: "state ?cb = StateOpen"
    with snoc have A: "\<exists>k \<le> length es. ?n \<le> int (consecutive_failures (take k es))"
      by simp
    have "state (record_all (es @ [e]) cb0) = StateOpen"
      using recordResult_open [OF o] by (simp only: e run)
    moreover have "\<exists>k \<le> length (es @ [e]). ?n \<le> int (consecutive_failures (take k (es @ [e])))"
      using A by (simp only: pre simp_thms)
    ultimately show ?thesis by (simp only: simp_thms)
  qed
qed

text \<open>
  C5. Start from any Closed breaker whose \<open>failureCount\<close> is 0 (a new breaker, or one
  that has just closed) and record any results \<open>es\<close>, then one more at time \<open>t\<close>.
  The last record moves the breaker from Closed to Open exactly when it is a failure
  and, counted with the failures recorded immediately before it, it is the
  \<open>failureThreshold\<close>-th consecutive one (the first one, for a threshold below 1);
  the breaker never opens on an earlier failure. On that transition \<open>failureCount\<close>
  is 0 again, and a success recorded while Closed keeps the breaker Closed with
  \<open>failureCount\<close> 0.
\<close>

theorem closed_opens_exactly_at_threshold:
  assumes "state cb0 = StateClosed" and "failureCount cb0 = 0"
  shows "(state (record_all es cb0) = StateClosed
            \<and> state (record_all (es @ [(t, err)]) cb0) = StateOpen
          \<longleftrightarrow> state (record_all es cb0) = StateClosed \<and> err \<noteq> None
            \<and> int (consecutive_failures es) + 1 = max 1 (failureThreshold cb0))
       \<and> (state (record_all es cb0) = StateClosed
            \<and> state (record_all (es @ [(t, err)]) cb0) = StateOpen
          \<longrightarrow> failureCount (record_all (es @ [(t, err)]) cb0) = 0)
       \<and> (state (record_all es cb0) = StateClosed \<and> err = None
          \<longrightarrow> state (record_all (es @ [(t, err)]) cb0) = StateClosed
            \<and> failureCount (record_all (es @ [(t, err)]) cb0) = 0)"
proof (cases "state (record_all es cb0) = StateClosed")
  case True
  let ?cb = "record_all es cb0"
  have run: "record_all (es @ [(t, err)]) cb0 = recordResult t err ?cb"
    by (simp add: record_all_append)
  from closed_run_invariant [OF assms, of es] True
  have thr: "failureThreshold ?cb = failureThreshold cb0"
    and fc: "failureCount ?cb = int (consecutive_failures es)"
    and lt: "int (consecutive_failures es) < max 1 (failureThreshold cb0)"
    by simp_all
  show ?thesis
    unfolding run recordResult_closed [OF True]
    using True thr fc lt by auto
next
  case False
  then show ?thesis by simp
qed

theorem closed_opens_exactly_at_threshold_witness:
  "state (record_all [(1, Some ()), (2, None), (3, Some ()), (4, Some ())] (NewCircuitBreaker 3 Second)) = StateClosed
   \<and> state (record_all ([(1, Some ()), (2, None), (3, Some ()), (4, Some ())] @ [(5, Some ())]) (NewCircuitBreaker 3 Second)) = StateOpen
   \<and> failureCount (record_all ([(1, Some ()), (2, None), (3, Some ()), (4, Some ())] @ [(5, Some ())]) (NewCircuitBreaker 3 Second)) = 0"
proof -
  let ?cb0 = "NewCircuitBreaker 3 Second"
  let ?es = "[(1, Some ()), (2, None), (3, Some ()), (4, Some ())] :: (int \<times> unit option) list"
  have s0: "state ?cb0 = StateClosed" and f0: "failureCount ?cb0 = 0"
    and th: "failureThreshold ?cb0 = 3"
    by (simp_all add: NewCircuitBreaker_def)
  have cf: "int (consecutive_failures ?es) + 1 = max 1 (failureThreshold ?cb0)"
    unfolding th by (simp add: consecutive_failures_def)
  have cl: "state (record_all ?es ?cb0) = StateClosed"
    by (simp add: NewCircuitBreaker_def recordResult_def onFailure_def onSuccess_def)
  have ne: "Some () \<noteq> None" by simp
  from closed_opens_exactly_at_threshold [OF s0 f0, of ?es 5 "Some ()"] cl ne cf
  have op: "state (record_all (?es @ [(5, Some ())]) ?cb0) = StateOpen"
    by blast
  from closed_opens_exactly_at_threshold [OF s0 f0, of ?es 5 "Some ()"] cl op
  have "failureCount (record_all (?es @ [(5, Some ())]) ?cb0) = 0"
    by blast
  with cl op show ?thesis by blast
qed

subsection \<open>RetryPolicy\<close>

lemma ShouldRetry_HTTPErr:
  "ShouldRetry rp (Some (HTTPErr h)) attempt =
     (attempt < maxAttempts rp \<and>
      (IsTimeout h \<or> IsServerError h \<or> StatusCode h \<in> set (retryableErrors rp)))"
  by (auto simp add: ShouldRetry_def IsTemporary_def IsServerError_def IsClientError_def)

lemma ShouldRetry_not_HTTPError:
  "\<forall>h. err \<noteq> Some (HTTPErr h) \<Longrightarrow> ShouldRetry rp err attempt = False"
  by (auto simp add: ShouldRetry_def split: option.splits go_error.splits)

text \<open>
  C3 as stated fails: an error of the network that is not a timeout (a refused
  connection, say, as \<open>HTTPClient.Send\<close> wraps it: no status code, the cause a
  \<open>net.Error\<close> whose \<open>Timeout()\<close> is false) is a network error by \<open>IsNetworkError\<close>, yet
  the default policy does not retry it on the first attempt of three.
\<close>

theorem ShouldRetry_network_error_counterexample:
  "IsNetworkError (HTTPError None None 0 ''GET request failed'' (Some (NetError False)))
   \<and> 0 < maxAttempts (NewRetryPolicy 3)
   \<and> \<not> ShouldRetry (NewRetryPolicy 3)
         (Some (HTTPErr (HTTPError None None 0 ''GET request failed'' (Some (NetError False))))) 0"
  by (simp add: ShouldRetry_HTTPErr IsNetworkError_def IsTimeout_def IsServerError_def
        NewRetryPolicy_def)

text \<open>
  C3, amended. For every timeout error and every attempt below \<open>maxAttempts\<close>,
  \<open>ShouldRetry\<close> returns true. A network error that is not a timeout gets no
  treatment of its own: like every error that is neither a timeout nor a 5xx, it is
  retried exactly when the attempt is below \<open>maxAttempts\<close> and its status code is in
  the retryable list. In particular a 4xx error that is not also a timeout is
  retried only when its status code is listed.
\<close>

theorem ShouldRetry_timeout_and_listed_codes:
  "(attempt < maxAttempts rp \<and> IsTimeout h \<longrightarrow> ShouldRetry rp (Some (HTTPErr h)) attempt)
 \<and> (IsNetworkError h \<and> \<not> IsTimeout h \<and> \<not> IsServerError h \<longrightarrow>
      (ShouldRetry rp (Some (HTTPErr h)) attempt
         \<longleftrightarrow> attempt < maxAttempts rp \<and> StatusCode h \<in> set (retryableErrors rp)))
 \<and> (IsClientError h \<and> \<not> IsTimeout h \<longrightarrow>
      (ShouldRetry rp (Some (HTTPErr h)) attempt
         \<longleftrightarrow> attempt < maxAttempts rp \<and> StatusCode h \<in> set (retryableErrors rp)))"
  by (auto simp add: ShouldRetry_HTTPErr IsClientError_def IsServerError_def)

theorem ShouldRetry_timeout_and_listed_codes_witness:
  "ShouldRetry (NewRetryPolicy 3)
     (Some (HTTPErr (HTTPError None None 0 ''GET request failed'' (Some (NetError True))))) 2
 \<and> \<not> ShouldRetry (NewRetryPolicy 3)
       (Some (HTTPErr (HTTPError None None 0 ''GET request failed'' (Some (NetError False))))) 2
 \<and> ShouldRetry (NewRetryPolicy 3)
     (Some (HTTPErr (HTTPError None None 429 ''GET request returned error status 429'' None))) 2
 \<and> \<not> ShouldRetry (NewRetryPolicy 3)
       (Some (HTTPErr (HTTPError None None 404 ''GET request returned error status 404'' None))) 2"
proof -
  let ?rp = "NewRetryPolicy 3"
  let ?t = "HTTPError None None 0 ''GET request failed'' (Some (NetError True))"
  let ?n = "HTTPError None None 0 ''GET request failed'' (Some (NetError False))"
  let ?a = "HTTPError None None 429 ''GET request returned error status 429'' None"
  let ?b = "HTTPError None None 404 ''GET request returned error status 404'' None"
  have rp: "maxAttempts ?rp = 3" "retryableErrors ?rp = [408, 429, 500, 502, 503, 504]"
    by (simp_all add: NewRetryPolicy_def)
  have t: "IsTimeout ?t" by (simp add: IsTimeout_def)
  have n: "IsNetworkError ?n \<and> \<not> IsTimeout ?n \<and> \<not> IsServerError ?n"
    by (simp add: IsNetworkError_def IsTimeout_def IsServerError_def)
  have a: "IsClientError ?a \<and> \<not> IsTimeout ?a"
    by (simp add: IsClientError_def IsTimeout_def)
  have b: "IsClientError ?b \<and> \<not> IsTimeout ?b"
    by (simp add: IsClientError_def IsTimeout_def)
  show ?thesis
    using ShouldRetry_timeout_and_listed_codes [of 2 ?rp ?t] t
          ShouldRetry_timeout_and_listed_codes [of 2 ?rp ?n] n
          ShouldRetry_timeout_and_listed_codes [of 2 ?rp ?a] a
          ShouldRetry_timeout_and_listed_codes [of 2 ?rp ?b] b
    by (simp add: rp)
qed

lemma GetDelay_zero: "GetDelay impl rp 0 = 0"
  by (simp add: GetDelay_def)

lemma GetDelay_in_range:
  assumes "\<bar>multiplier rp ^ n\<bar> \<le> MaxFloat64"
    and "\<bar>real_of_int (initialDelay rp) * multiplier rp ^ n\<bar> \<le> MaxFloat64"
    and "minDuration \<le> trunc_toward_zero (real_of_int (initialDelay rp) * multiplier rp ^ n)"
    and "trunc_toward_zero (real_of_int (initialDelay rp) * multiplier rp ^ n) \<le> maxDuration"
  shows "GetDelay impl rp (int n + 1)
           = min (maxDelay rp) (trunc_toward_zero (real_of_int (initialDelay rp) * multiplier rp ^ n))"
  using assms
  by (simp add: GetDelay_def math_Pow_def finite64_def float64_mul_def float64_to_Duration_def
        Let_def)

lemma GetDelay_default_1: "GetDelay impl (NewRetryPolicy n) 1 = 100 * Millisecond"
  by (simp add: GetDelay_def NewRetryPolicy_def math_Pow_def finite64_def float64_mul_def
        float64_to_Duration_def trunc_toward_zero_def MaxFloat64_def Millisecond_def Second_def
        minDuration_def maxDuration_def)

text \<open>
  C4 at a failing input. For the default policy with 64 attempts, the claim gives
  \<open>GetDelay(38) = min(30 s, 100 ms \<times> 2^37) = 30 s\<close>. The code converts
  \<open>100 ms \<times> 2^37\<close> nanoseconds to \<open>int64\<close> before it compares with \<open>maxDelay\<close>; the value
  exceeds the \<open>int64\<close> range, so the delay is whatever the implementation's conversion
  yields, capped at 30 s only if that happens to be larger: on amd64 it is the
  smallest \<open>int64\<close>, a negative delay.
\<close>

theorem GetDelay_conversion_overflow:
  "GetDelay impl (NewRetryPolicy 64) 38
     = (if impl (Some (100000000 * 2 ^ 37)) > 30 * Second then 30 * Second
        else impl (Some (100000000 * 2 ^ 37)))
 \<and> GetDelay amd64_conversion (NewRetryPolicy 64) 38 = - (2 ^ 63)
 \<and> min (maxDelay (NewRetryPolicy 64))
       (trunc_toward_zero (real_of_int (initialDelay (NewRetryPolicy 64)) * multiplier (NewRetryPolicy 64) ^ 37))
     = 30 * Second"
proof -
  have fl: "float64_mul (Some (real_of_int (initialDelay (NewRetryPolicy 64))))
              (math_Pow (multiplier (NewRetryPolicy 64)) (38 - 1)) = Some (100000000 * 2 ^ 37)"
    by (simp add: NewRetryPolicy_def math_Pow_def finite64_def float64_mul_def MaxFloat64_def
          Millisecond_def)
  have tr: "trunc_toward_zero 13743895347200000000 = 13743895347200000000"
    by (simp add: trunc_toward_zero_def)
  have conv: "float64_to_Duration impl (Some (100000000 * 2 ^ 37)) = impl (Some (100000000 * 2 ^ 37))" for impl
    by (simp add: float64_to_Duration_def tr maxDuration_def)
  have g: "GetDelay impl (NewRetryPolicy 64) 38
     = (if impl (Some (100000000 * 2 ^ 37)) > 30 * Second then 30 * Second
        else impl (Some (100000000 * 2 ^ 37)))" for impl
    unfolding GetDelay_def fl Let_def conv by (simp add: NewRetryPolicy_def)
  have a: "GetDelay amd64_conversion (NewRetryPolicy 64) 38 = - (2 ^ 63)"
    unfolding g by (simp add: amd64_conversion_def minDuration_def Second_def)
  have m: "min (maxDelay (NewRetryPolicy 64))
       (trunc_toward_zero (real_of_int (initialDelay (NewRetryPolicy 64)) * multiplier (NewRetryPolicy 64) ^ 37))
     = 30 * Second"
    by (simp add: NewRetryPolicy_def trunc_toward_zero_def Millisecond_def Second_def)
  show ?thesis using g a m by blast
qed

subsection \<open>RateLimiter\<close>

lemma time_Sub_nonneg: "u \<le> t \<Longrightarrow> 0 \<le> time_Sub t u"
  by (simp add: time_Sub_def minDuration_def maxDuration_def)

lemma refill_tokens:
  "tokens (refill now rl)
     = min (real_of_int (burst rl))
           (tokens rl + Duration_Seconds (time_Sub now (lastRefillTime rl)) * rate rl)"
  by (simp add: refill_def Let_def min_def)

lemma refill_fields:
  "rate (refill now rl) = rate rl" "burst (refill now rl) = burst rl"
  "lastRefillTime (refill now rl) = now"
  by (simp_all add: refill_def Let_def)

lemma Allow_fields:
  "rate (snd (Allow now rl)) = rate rl" "burst (snd (Allow now rl)) = burst rl"
  "lastRefillTime (snd (Allow now rl)) = now"
  by (simp_all add: Allow_def Let_def refill_fields)

lemma Allow_tokens:
  "tokens (snd (Allow now rl))
     = (if 1 \<le> tokens (refill now rl) then tokens (refill now rl) - 1 else tokens (refill now rl))"
  "fst (Allow now rl) \<longleftrightarrow> 1 \<le> tokens (refill now rl)"
  by (simp_all add: Allow_def Let_def)

lemma Allow_upper: "tokens (snd (Allow now rl)) \<le> real_of_int (burst rl)"
proof -
  have "tokens (refill now rl) \<le> real_of_int (burst rl)"
    by (simp add: refill_tokens)
  then show ?thesis
    by (simp add: Allow_tokens)
qed

lemma Allow_lower:
  assumes "0 \<le> rate rl" and "0 \<le> tokens rl" and "0 \<le> burst rl" and "lastRefillTime rl \<le> now"
  shows "0 \<le> tokens (snd (Allow now rl))"
proof -
  have "0 \<le> Duration_Seconds (time_Sub now (lastRefillTime rl))"
    using time_Sub_nonneg [OF assms(4)] by (simp add: Duration_Seconds_def)
  then have "0 \<le> Duration_Seconds (time_Sub now (lastRefillTime rl)) * rate rl"
    using assms(1) by simp
  then have "0 \<le> tokens (refill now rl)"
    using assms(2,3) by (simp add: refill_tokens)
  then show ?thesis
    by (simp add: Allow_tokens)
qed

lemma allow_all_invariant:
  assumes "0 \<le> rate rl" and "0 \<le> burst rl" and "0 \<le> tokens rl"
    and "tokens rl \<le> real_of_int (burst rl)" and "sorted (lastRefillTime rl # ts)"
  shows "0 \<le> tokens (snd (allow_all ts rl))
       \<and> tokens (snd (allow_all ts rl)) \<le> real_of_int (burst rl)"
  using assms
proof (induction ts arbitrary: rl)
  case Nil
  then show ?case by simp
next
  case (Cons t ts)
  let ?rl1 = "snd (Allow t rl)"
  have le: "lastRefillTime rl \<le> t" using Cons.prems(5) by simp
  have "0 \<le> tokens (snd (allow_all ts ?rl1))
      \<and> tokens (snd (allow_all ts ?rl1)) \<le> real_of_int (burst ?rl1)"
  proof (rule Cons.IH)
    show "0 \<le> rate ?rl1" using Cons.prems(1) by (simp add: Allow_fields)
    show "0 \<le> burst ?rl1" using Cons.prems(2) by (simp add: Allow_fields)
    show "0 \<le> tokens ?rl1"
      using Cons.prems(1,3,2) le by (rule Allow_lower)
    show "tokens ?rl1 \<le> real_of_int (burst ?rl1)"
      by (simp add: Allow_fields Allow_upper)
    show "sorted (lastRefillTime ?rl1 # ts)"
      using Cons.prems(5) by (simp add: Allow_fields)
  qed
  then show ?case
    by (simp add: split_beta Let_def Allow_fields)
qed

text \<open>
  C7 as stated fails: the constructor accepts any rate. With a rate of \<open>-1\<close> token per
  second and a burst of 5, an \<open>Allow\<close> call ten seconds after construction refills by
  \<open>10 \<times> (-1)\<close>, is refused, and leaves \<open>-5\<close> tokens.
\<close>

theorem Allow_negative_rate_counterexample:
  "\<not> fst (Allow (10 * Second) (NewRateLimiter 0 (- 1) 5))
   \<and> tokens (snd (Allow (10 * Second) (NewRateLimiter 0 (- 1) 5))) = - 5
   \<and> \<not> 0 \<le> tokens (snd (Allow (10 * Second) (NewRateLimiter 0 (- 1) 5)))"
  by (simp add: Allow_tokens refill_tokens NewRateLimiter_def Duration_Seconds_def time_Sub_def
        Second_def minDuration_def maxDuration_def)

text \<open>
  C7, amended. For a limiter built with a rate and a burst that are not negative, and
  \<open>Allow\<close> calls at clock readings that never go back, the token count stays within
  \<open>[0, burst]\<close> after every call. Each call first refills by elapsed seconds times
  rate, capped at burst; it returns true and takes exactly one token when at least
  one is there after the refill, and otherwise returns false and takes none.
\<close>

theorem Allow_keeps_tokens_within_burst:
  assumes "0 \<le> r" and "0 \<le> b" and "sorted (t0 # ts)"
  shows "0 \<le> tokens (snd (allow_all ts (NewRateLimiter t0 r b)))
       \<and> tokens (snd (allow_all ts (NewRateLimiter t0 r b))) \<le> real_of_int b
       \<and> tokens (refill now rl)
           = min (real_of_int (burst rl))
               (tokens rl + Duration_Seconds (time_Sub now (lastRefillTime rl)) * rate rl)
       \<and> (fst (Allow now rl) \<longleftrightarrow> 1 \<le> tokens (refill now rl))
       \<and> tokens (snd (Allow now rl))
           = (if fst (Allow now rl) then tokens (refill now rl) - 1 else tokens (refill now rl))"
proof -
  let ?rl = "NewRateLimiter t0 r b"
  have f: "rate ?rl = r" "burst ?rl = b" "tokens ?rl = real_of_int b" "lastRefillTime ?rl = t0"
    by (simp_all add: NewRateLimiter_def)
  have "0 \<le> tokens (snd (allow_all ts ?rl))
      \<and> tokens (snd (allow_all ts ?rl)) \<le> real_of_int (burst ?rl)"
    by (rule allow_all_invariant) (use assms in \<open>simp_all add: f\<close>)
  then show ?thesis
    by (simp add: f refill_tokens Allow_tokens)
qed

theorem Allow_keeps_tokens_within_burst_witness:
  "fst (allow_all [0, 0, 0, 0, 0, 0, 100000000] (NewRateLimiter 0 10 5))
     = [True, True, True, True, True, False, True]
 \<and> 0 \<le> tokens (snd (allow_all [0, 0, 0, 0, 0, 0, 100000000] (NewRateLimiter 0 10 5)))
 \<and> tokens (snd (allow_all [0, 0, 0, 0, 0, 0, 100000000] (NewRateLimiter 0 10 5))) \<le> 5"
proof -
  have run: "fst (allow_all [0, 0, 0, 0, 0, 0, 100000000] (NewRateLimiter 0 10 5))
     = [True, True, True, True, True, False, True]"
    by (simp add: Allow_def refill_def NewRateLimiter_def Duration_Seconds_def time_Sub_def
          minDuration_def maxDuration_def Let_def)
  have h: "(0::real) \<le> 10" "(0::int) \<le> 5" "sorted [0, 0, 0, 0, 0, 0, 0, 100000000 :: int]"
    by simp_all
  show ?thesis
    using Allow_keeps_tokens_within_burst [OF h(1) h(2), of 0 "[0, 0, 0, 0, 0, 0, 100000000]"] h(3) run
    by simp
qed

subsection \<open>RetryDecorator and CircuitBreakerDecorator\<close>

lemma retry_loop_exit:
  "\<not> attempt < IMaxAttempts p \<Longrightarrow>
   retry_loop p pick lag wrapped req attempt lastErr w = ((None, lastErr), w)"
  by (subst retry_loop.simps) simp

lemma select_After_never_done:
  "doneAt req = None \<Longrightarrow>
   select_After_or_Done req b l delay w = (True, w\<lparr> clock := clock w + max 0 delay + int l \<rparr>)"
  by (simp add: select_After_or_Done_def)

lemma retry_loop_retry:
  assumes "attempt < IMaxAttempts p" and "doneAt req = None"
    and "wrapped req w = ((resp, Some e), w1)" and "IShouldRetry p (Some e) attempt"
  shows "retry_loop p pick lag wrapped req attempt lastErr w
           = retry_loop p pick lag wrapped req (attempt + 1) (Some e)
               (w1\<lparr> clock := clock w1 + max 0 (IGetDelay p attempt) + int (lag attempt) \<rparr>)"
  using assms
  by (subst retry_loop.simps) (simp add: ctx_Done_def select_After_never_done)

lemma retry_loop_break:
  assumes "attempt < IMaxAttempts p" and "doneAt req = None"
    and "wrapped req w = ((resp, Some e), w1)" and "\<not> IShouldRetry p (Some e) attempt"
  shows "retry_loop p pick lag wrapped req attempt lastErr w = ((None, Some e), w1)"
  using assms
  by (subst retry_loop.simps) (simp add: ctx_Done_def)

lemma retry_loop_all_fail:
  assumes nd: "doneAt req = None"
    and fail: "\<And>k. snd (respond tr k) \<noteq> None"
    and again: "\<And>k a. a < IMaxAttempts p \<Longrightarrow> IShouldRetry p (snd (respond tr k)) a"
  shows "n = nat (IMaxAttempts p - a) \<Longrightarrow>
         fst (retry_loop p pick lag (transport_Send tr) req a lastErr w)
           = (None, if 0 < n then snd (respond tr (calls w + n - 1)) else lastErr)
       \<and> calls (snd (retry_loop p pick lag (transport_Send tr) req a lastErr w)) = calls w + n"
proof (induction n arbitrary: a lastErr w)
  case 0
  then have "\<not> a < IMaxAttempts p" by simp
  then show ?case by (simp add: retry_loop_exit)
next
  case (Suc n)
  then have lt: "a < IMaxAttempts p" and n: "n = nat (IMaxAttempts p - (a + 1))" by simp_all
  obtain resp e where r: "respond tr (calls w) = (resp, Some e)"
    using fail [of "calls w"] by (cases "respond tr (calls w)") auto
  let ?w1 = "w\<lparr> clock := clock w + latency tr (calls w), calls := calls w + 1 \<rparr>"
  let ?w2 = "?w1\<lparr> clock := clock ?w1 + max 0 (IGetDelay p a) + int (lag a) \<rparr>"
  have send: "transport_Send tr req w = ((resp, Some e), ?w1)"
    by (simp add: transport_Send_def r)
  have sr: "IShouldRetry p (Some e) a"
    using again [OF lt, of "calls w"] r by simp
  have step: "retry_loop p pick lag (transport_Send tr) req a lastErr w
      = retry_loop p pick lag (transport_Send tr) req (a + 1) (Some e) ?w2"
    using lt nd send sr by (rule retry_loop_retry)
  have e: "Some e = snd (respond tr (calls w))" using r by simp
  show ?case
    unfolding step using Suc.IH [OF n, of "Some e" ?w2] e by (cases n) simp_all
qed

text \<open>
  C2. Take a retry policy with \<open>maxAttempts = 3\<close> (any delays, any retryable list, any
  platform, any timer lag), a request whose context is never done, and an inner transport whose
  every \<open>Send\<close> returns an error with a 5xx status. Then \<open>RetryDecorator.Send\<close> invokes
  the inner transport exactly three times and returns a nil response together with
  the server error of the third invocation.
\<close>

theorem RetryDecorator_Send_three_attempts_on_server_error:
  assumes "maxAttempts rp = 3" and "doneAt req = None"
    and "\<forall>k. \<exists>resp h. respond tr k = (resp, Some (HTTPErr h)) \<and> IsServerError h"
  shows "fst (RetryDecorator_Send (RetryPolicy_methods impl rp) pick lag (transport_Send tr) req w)
           = (None, snd (respond tr (calls w + 2)))
       \<and> calls (snd (RetryDecorator_Send (RetryPolicy_methods impl rp) pick lag (transport_Send tr) req w))
           = calls w + 3"
proof -
  let ?p = "RetryPolicy_methods impl rp"
  have m: "IMaxAttempts ?p = 3"
    using assms(1) by (simp add: RetryPolicy_methods_def MaxAttempts_def)
  have fail: "snd (respond tr k) \<noteq> None" for k
    using assms(3) [rule_format, of k] by auto
  have again: "IShouldRetry ?p (snd (respond tr k)) a" if "a < IMaxAttempts ?p" for k a
  proof -
    obtain resp h where "respond tr k = (resp, Some (HTTPErr h))" and "IsServerError h"
      using assms(3) [rule_format, of k] by auto
    then show ?thesis
      using that m by (simp add: RetryPolicy_methods_def assms(1) ShouldRetry_HTTPErr)
  qed
  have "fst (retry_loop ?p pick lag (transport_Send tr) req 0 None w)
           = (None, if 0 < (3::nat) then snd (respond tr (calls w + 3 - 1)) else None)
       \<and> calls (snd (retry_loop ?p pick lag (transport_Send tr) req 0 None w)) = calls w + 3"
    by (rule retry_loop_all_fail [OF assms(2) fail again]) (simp_all add: m)
  then show ?thesis
    by (simp add: RetryDecorator_Send_def)
qed

theorem RetryDecorator_Send_three_attempts_on_server_error_witness:
  "fst (RetryDecorator_Send (RetryPolicy_methods amd64_conversion (NewRetryPolicy 3)) (\<lambda>a. True) (\<lambda>a. 1000)
          (transport_Send \<lparr> respond = (\<lambda>k. (None, Some (HTTPErr (HTTPError None None 500 ''error status'' None)))),
                            latency = (\<lambda>k. 1000) \<rparr>)
          \<lparr> Method = ''GET'', URL = ''http://upstream/'', doneAt = None, ctxErr = Canceled \<rparr>
          \<lparr> clock = 0, calls = 0, breaker = NewCircuitBreaker 5 Second \<rparr>)
     = (None, Some (HTTPErr (HTTPError None None 500 ''error status'' None)))
 \<and> calls (snd (RetryDecorator_Send (RetryPolicy_methods amd64_conversion (NewRetryPolicy 3)) (\<lambda>a. True) (\<lambda>a. 1000)
          (transport_Send \<lparr> respond = (\<lambda>k. (None, Some (HTTPErr (HTTPError None None 500 ''error status'' None)))),
                            latency = (\<lambda>k. 1000) \<rparr>)
          \<lparr> Method = ''GET'', URL = ''http://upstream/'', doneAt = None, ctxErr = Canceled \<rparr>
          \<lparr> clock = 0, calls = 0, breaker = NewCircuitBreaker 5 Second \<rparr>))
     = 3"
proof -
  let ?tr = "\<lparr> respond = (\<lambda>k. (None, Some (HTTPErr (HTTPError None None 500 ''error status'' None)))),
              latency = (\<lambda>k. 1000) \<rparr> :: transport"
  let ?req = "\<lparr> Method = ''GET'', URL = ''http://upstream/'', doneAt = None, ctxErr = Canceled \<rparr>"
  have a: "maxAttempts (NewRetryPolicy 3) = 3" by (simp add: NewRetryPolicy_def)
  have b: "doneAt ?req = None" by simp
  have c: "\<forall>k. \<exists>resp h. respond ?tr k = (resp, Some (HTTPErr h)) \<and> IsServerError h"
    by (simp add: IsServerError_def)
  show ?thesis
    using RetryDecorator_Send_three_attempts_on_server_error [OF a b c,
            of amd64_conversion "\<lambda>a. True" "\<lambda>a. 1000" "\<lparr> clock = 0, calls = 0, breaker = NewCircuitBreaker 5 Second \<rparr>"]
    by simp
qed

lemma CircuitBreakerDecorator_Send_closed_failure:
  assumes "state (breaker w) = StateClosed" and "respond tr (calls w) = (resp, Some e)"
  shows "CircuitBreakerDecorator_Send (transport_Send tr) req w
           = ((resp, Some e),
              w\<lparr> clock := clock w + latency tr (calls w), calls := calls w + 1,
                 breaker := onFailure (clock w + latency tr (calls w)) (breaker w) \<rparr>)"
  using assms
  by (simp add: CircuitBreakerDecorator_Send_def CircuitBreaker_Execute_def canExecute_def
        transport_Send_def recordResult_def)

lemma CircuitBreakerDecorator_Send_open_rejected:
  assumes "state (breaker w) = StateOpen"
    and "time_Since (clock w) (lastFailureTime (breaker w)) \<le> timeout (breaker w)"
  shows "CircuitBreakerDecorator_Send wrapped req w = ((None, Some circuit_open_error), w)"
  using assms
  by (simp add: CircuitBreakerDecorator_Send_def CircuitBreaker_Execute_def canExecute_def)

lemma CircuitBreakerDecorator_Send_half_open_failure:
  assumes "state (breaker w) = StateOpen"
    and "time_Since (clock w) (lastFailureTime (breaker w)) > timeout (breaker w)"
    and "respond tr (calls w) = (resp, Some e)"
  shows "CircuitBreakerDecorator_Send (transport_Send tr) req w
           = ((resp, Some e),
              w\<lparr> clock := clock w + latency tr (calls w), calls := calls w + 1,
                 breaker := onFailure (clock w + latency tr (calls w))
                              ((breaker w)\<lparr> state := StateHalfOpen, successCount := 0 \<rparr>) \<rparr>)"
  using assms
  by (simp add: CircuitBreakerDecorator_Send_def CircuitBreaker_Execute_def canExecute_def
        transport_Send_def recordResult_def)

lemma ShouldRetry_circuit_open_error:
  "ShouldRetry rp (Some circuit_open_error) attempt = False"
  by (simp add: ShouldRetry_def circuit_open_error_def)

lemma time_Since_after: "time_Since (t + x) (Some t) = time_Sub x 0"
  by (simp add: time_Since_def time_Sub_def)

text \<open>
  C1 as stated fails: an always-failing transport need not fail in a way the policy
  retries. With the default policy of three attempts around a new breaker with
  \<open>failureThreshold = 2\<close> and a timeout of one second, a transport that refuses every
  connection (a network failure that is not a timeout) is invoked once: \<open>Send\<close> returns
  that network failure, not the circuit-open error, and the breaker is still Closed.
\<close>

theorem RetryDecorator_over_breaker_refused_connection_counterexample:
  "fst (RetryDecorator_Send (RetryPolicy_methods amd64_conversion (NewRetryPolicy 3))
          (\<lambda>a. True) (\<lambda>a. 1000)
          (CircuitBreakerDecorator_Send
             (transport_Send \<lparr> respond = (\<lambda>k. (None, Some (HTTPErr (HTTPError None None 0 ''GET request failed'' (Some (NetError False)))))),
                               latency = (\<lambda>k. Millisecond) \<rparr>))
          \<lparr> Method = ''GET'', URL = ''http://upstream/'', doneAt = None, ctxErr = Canceled \<rparr>
          \<lparr> clock = 0, calls = 0, breaker = NewCircuitBreaker 2 Second \<rparr>)
     = (None, Some (HTTPErr (HTTPError None None 0 ''GET request failed'' (Some (NetError False)))))
 \<and> calls (snd (RetryDecorator_Send (RetryPolicy_methods amd64_conversion (NewRetryPolicy 3))
          (\<lambda>a. True) (\<lambda>a. 1000)
          (CircuitBreakerDecorator_Send
             (transport_Send \<lparr> respond = (\<lambda>k. (None, Some (HTTPErr (HTTPError None None 0 ''GET request failed'' (Some (NetError False)))))),
                               latency = (\<lambda>k. Millisecond) \<rparr>))
          \<lparr> Method = ''GET'', URL = ''http://upstream/'', doneAt = None, ctxErr = Canceled \<rparr>
          \<lparr> clock = 0, calls = 0, breaker = NewCircuitBreaker 2 Second \<rparr>))
     = 1
 \<and> state (breaker (snd (RetryDecorator_Send (RetryPolicy_methods amd64_conversion (NewRetryPolicy 3))
          (\<lambda>a. True) (\<lambda>a. 1000)
          (CircuitBreakerDecorator_Send
             (transport_Send \<lparr> respond = (\<lambda>k. (None, Some (HTTPErr (HTTPError None None 0 ''GET request failed'' (Some (NetError False)))))),
                               latency = (\<lambda>k. Millisecond) \<rparr>))
          \<lparr> Method = ''GET'', URL = ''http://upstream/'', doneAt = None, ctxErr = Canceled \<rparr>
          \<lparr> clock = 0, calls = 0, breaker = NewCircuitBreaker 2 Second \<rparr>)))
     = StateClosed"
proof -
  let ?e = "HTTPErr (HTTPError None None 0 ''GET request failed'' (Some (NetError False)))"
  let ?tr = "\<lparr> respond = (\<lambda>k. (None, Some ?e)), latency = (\<lambda>k. Millisecond) \<rparr> :: transport"
  let ?req = "\<lparr> Method = ''GET'', URL = ''http://upstream/'', doneAt = None, ctxErr = Canceled \<rparr>"
  let ?w = "\<lparr> clock = 0, calls = 0, breaker = NewCircuitBreaker 2 Second \<rparr>"
  let ?p = "RetryPolicy_methods amd64_conversion (NewRetryPolicy 3)"
  let ?w1 = "?w\<lparr> clock := clock ?w + latency ?tr (calls ?w), calls := calls ?w + 1,
                breaker := onFailure (clock ?w + latency ?tr (calls ?w)) (breaker ?w) \<rparr>"
  have send: "CircuitBreakerDecorator_Send (transport_Send ?tr) ?req ?w = ((None, Some ?e), ?w1)"
    by (rule CircuitBreakerDecorator_Send_closed_failure) (simp_all add: NewCircuitBreaker_def)
  have no: "\<not> IShouldRetry ?p (Some ?e) 0"
    by (simp add: RetryPolicy_methods_def ShouldRetry_HTTPErr IsTimeout_def IsServerError_def
          NewRetryPolicy_def)
  have "retry_loop ?p (\<lambda>a. True) (\<lambda>a. 1000) (CircuitBreakerDecorator_Send (transport_Send ?tr)) ?req 0 None ?w
      = ((None, Some ?e), ?w1)"
  proof (rule retry_loop_break)
    show "0 < IMaxAttempts ?p"
      by (simp add: RetryPolicy_methods_def MaxAttempts_def NewRetryPolicy_def)
    show "doneAt ?req = None" by simp
    show "CircuitBreakerDecorator_Send (transport_Send ?tr) ?req ?w = ((None, Some ?e), ?w1)"
      by (rule send)
    show "\<not> IShouldRetry ?p (Some ?e) 0" by (rule no)
  qed
  then have "RetryDecorator_Send ?p (\<lambda>a. True) (\<lambda>a. 1000)
      (CircuitBreakerDecorator_Send (transport_Send ?tr)) ?req ?w = ((None, Some ?e), ?w1)"
    by (simp add: RetryDecorator_Send_def)
  then show ?thesis
    by (simp add: onFailure_def NewCircuitBreaker_def)
qed

text \<open>
  C1, amended. \<open>ShouldRetry\<close> is false on the circuit-open error for every policy and
  every attempt count. Take the chain retry (\<open>maxAttempts = 3\<close>) around circuit breaker
  (new, \<open>failureThreshold = 2\<close>) around a transport whose every call fails, with a
  context that is never done. The third admission check measures, since the second
  failure was recorded, the backoff \<open>GetDelay(1)\<close> plus the lag of the timer
  (\<open>time_Sub x 0\<close> below is that time \<open>x\<close> as \<open>time.Since\<close> reports it).
  \<^item> If every failure is one the policy retries and that time does not exceed the open
    timeout, the third attempt is rejected by the open breaker: the transport is
    invoked exactly twice and \<open>Send\<close> returns the circuit-open error.
  \<^item> If every failure is one the policy retries and that time exceeds the open
    timeout, the breaker half-opens instead: the transport is invoked a third time
    and \<open>Send\<close> returns the third failure.
  \<^item> If the first failure is one the policy does not retry, \<open>Send\<close> returns it after a
    single invocation, and the breaker is still Closed.
\<close>

theorem RetryDecorator_over_breaker_third_attempt:
  assumes "maxAttempts rp = 3" and "doneAt req = None"
    and "breaker w = NewCircuitBreaker 2 tmo"
    and "\<forall>k. snd (respond tr k) \<noteq> None"
  shows "(\<forall>rp' a. \<not> ShouldRetry rp' (Some circuit_open_error) a)
       \<and> ((\<forall>k a. a < 3 \<longrightarrow> ShouldRetry rp (snd (respond tr k)) a)
            \<and> time_Sub (max 0 (GetDelay impl rp 1) + int (lag 1)) 0 \<le> tmo \<longrightarrow>
            fst (RetryDecorator_Send (RetryPolicy_methods impl rp) pick lag
                   (CircuitBreakerDecorator_Send (transport_Send tr)) req w)
              = (None, Some circuit_open_error)
          \<and> calls (snd (RetryDecorator_Send (RetryPolicy_methods impl rp) pick lag
                   (CircuitBreakerDecorator_Send (transport_Send tr)) req w))
              = calls w + 2
          \<and> state (breaker (snd (RetryDecorator_Send (RetryPolicy_methods impl rp) pick lag
                   (CircuitBreakerDecorator_Send (transport_Send tr)) req w)))
              = StateOpen)
       \<and> ((\<forall>k a. a < 3 \<longrightarrow> ShouldRetry rp (snd (respond tr k)) a)
            \<and> tmo < time_Sub (max 0 (GetDelay impl rp 1) + int (lag 1)) 0 \<longrightarrow>
            fst (RetryDecorator_Send (RetryPolicy_methods impl rp) pick lag
                   (CircuitBreakerDecorator_Send (transport_Send tr)) req w)
              = (None, snd (respond tr (calls w + 2)))
          \<and> calls (snd (RetryDecorator_Send (RetryPolicy_methods impl rp) pick lag
                   (CircuitBreakerDecorator_Send (transport_Send tr)) req w))
              = calls w + 3)
       \<and> (\<not> ShouldRetry rp (snd (respond tr (calls w))) 0 \<longrightarrow>
            fst (RetryDecorator_Send (RetryPolicy_methods impl rp) pick lag
                   (CircuitBreakerDecorator_Send (transport_Send tr)) req w)
              = (None, snd (respond tr (calls w)))
          \<and> calls (snd (RetryDecorator_Send (RetryPolicy_methods impl rp) pick lag
                   (CircuitBreakerDecorator_Send (transport_Send tr)) req w))
              = calls w + 1
          \<and> state (breaker (snd (RetryDecorator_Send (RetryPolicy_methods impl rp) pick lag
                   (CircuitBreakerDecorator_Send (transport_Send tr)) req w)))
              = StateClosed)"
proof -
  let ?p = "RetryPolicy_methods impl rp"
  let ?inner = "CircuitBreakerDecorator_Send (transport_Send tr)"
  let ?R = "RetryDecorator_Send ?p pick lag ?inner req w"
  let ?x = "max 0 (GetDelay impl rp 1) + int (lag 1)"
  have m: "IMaxAttempts ?p = 3"
    using assms(1) by (simp add: RetryPolicy_methods_def MaxAttempts_def)
  have sr: "IShouldRetry ?p = ShouldRetry rp" and gd: "IGetDelay ?p = GetDelay impl rp"
    by (simp_all add: RetryPolicy_methods_def)
  obtain resp0 e0 where r0: "respond tr (calls w) = (resp0, Some e0)"
    using assms(4) [rule_format, of "calls w"] by (cases "respond tr (calls w)") auto
  obtain resp1 e1 where r1: "respond tr (calls w + 1) = (resp1, Some e1)"
    using assms(4) [rule_format, of "calls w + 1"] by (cases "respond tr (calls w + 1)") auto
  obtain resp2 e2 where r2: "respond tr (calls w + 2) = (resp2, Some e2)"
    using assms(4) [rule_format, of "calls w + 2"] by (cases "respond tr (calls w + 2)") auto

  \<comment> \<open>first attempt: admitted, fails, one failure counted\<close>
  define t1 where "t1 = clock w + latency tr (calls w)"
  define cb1 where "cb1 = onFailure t1 (breaker w)"
  define w1 where "w1 = w\<lparr> clock := t1, calls := calls w + 1, breaker := cb1 \<rparr>"
  have cb1: "state cb1 = StateClosed" "failureCount cb1 = 1" "failureThreshold cb1 = 2"
    "timeout cb1 = tmo"
    by (simp_all add: cb1_def assms(3) onFailure_def NewCircuitBreaker_def)
  have send0: "?inner req w = ((resp0, Some e0), w1)"
    unfolding w1_def cb1_def t1_def
    by (rule CircuitBreakerDecorator_Send_closed_failure) (simp_all add: assms(3) NewCircuitBreaker_def r0)

  \<comment> \<open>the first failure is not retried\<close>
  have D: "fst ?R = (None, snd (respond tr (calls w))) \<and> calls (snd ?R) = calls w + 1
      \<and> state (breaker (snd ?R)) = StateClosed"
    if no: "\<not> ShouldRetry rp (snd (respond tr (calls w))) 0"
  proof -
    have "retry_loop ?p pick lag ?inner req 0 None w = ((None, Some e0), w1)"
    proof (rule retry_loop_break)
      show "0 < IMaxAttempts ?p" by (simp add: m)
      show "doneAt req = None" by (rule assms(2))
      show "?inner req w = ((resp0, Some e0), w1)" by (rule send0)
      show "\<not> IShouldRetry ?p (Some e0) 0" using no by (simp add: sr r0)
    qed
    then have "?R = ((None, Some e0), w1)" by (simp add: RetryDecorator_Send_def)
    then show ?thesis by (simp add: r0 w1_def cb1)
  qed

  \<comment> \<open>every failure is retried\<close>
  have BC: "(time_Sub ?x 0 \<le> tmo \<longrightarrow>
        fst ?R = (None, Some circuit_open_error) \<and> calls (snd ?R) = calls w + 2
        \<and> state (breaker (snd ?R)) = StateOpen)
      \<and> (tmo < time_Sub ?x 0 \<longrightarrow>
        fst ?R = (None, snd (respond tr (calls w + 2))) \<and> calls (snd ?R) = calls w + 3)"
    if again: "\<forall>k a. a < 3 \<longrightarrow> ShouldRetry rp (snd (respond tr k)) a"
  proof -
    have s0: "ShouldRetry rp (Some e0) 0"
      using again [rule_format, of 0 "calls w"] r0 by simp
    have s1: "ShouldRetry rp (Some e1) 1"
      using again [rule_format, of 1 "calls w + 1"] r1 by simp
    have s2: "ShouldRetry rp (Some e2) 2"
      using again [rule_format, of 2 "calls w + 2"] r2 by simp
    define w1' where "w1' = w1\<lparr> clock := clock w1 + max 0 (GetDelay impl rp 0) + int (lag 0) \<rparr>"
    have step0: "retry_loop ?p pick lag ?inner req 0 None w
        = retry_loop ?p pick lag ?inner req (0 + 1) (Some e0) w1'"
      unfolding w1'_def gd [symmetric]
      by (rule retry_loop_retry) (simp_all add: m assms(2) send0 sr s0)

    \<comment> \<open>second attempt: admitted, fails, the breaker opens\<close>
    have w1': "calls w1' = calls w + 1" "breaker w1' = cb1"
      by (simp_all add: w1'_def w1_def)
    define t2 where "t2 = clock w1' + latency tr (calls w1')"
    define cb2 where "cb2 = onFailure t2 cb1"
    define w2 where "w2 = w1'\<lparr> clock := t2, calls := calls w1' + 1, breaker := cb2 \<rparr>"
    have cb2: "state cb2 = StateOpen" "lastFailureTime cb2 = Some t2" "timeout cb2 = tmo"
      by (simp_all add: cb2_def onFailure_def cb1)
    have send1: "?inner req w1' = ((resp1, Some e1), w2)"
      unfolding w2_def cb2_def t2_def w1'(2) [symmetric]
      by (rule CircuitBreakerDecorator_Send_closed_failure) (use r1 in \<open>simp_all add: w1' cb1\<close>)
    define w2' where "w2' = w2\<lparr> clock := clock w2 + max 0 (GetDelay impl rp 1) + int (lag 1) \<rparr>"
    have step1: "retry_loop ?p pick lag ?inner req 1 (Some e0) w1'
        = retry_loop ?p pick lag ?inner req (1 + 1) (Some e1) w2'"
      unfolding w2'_def gd [symmetric]
      by (rule retry_loop_retry) (simp_all add: m assms(2) send1 sr s1)
    have w2': "calls w2' = calls w + 2" "breaker w2' = cb2" "clock w2' = t2 + ?x"
      by (simp_all add: w2'_def w2_def w1')
    have measured: "time_Since (clock w2') (lastFailureTime (breaker w2')) = time_Sub ?x 0"
      by (simp only: w2'(2,3) cb2(2) time_Since_after)
    have tm: "timeout (breaker w2') = tmo" and op: "state (breaker w2') = StateOpen"
      by (simp_all only: w2'(2) cb2)
    have start: "?R = retry_loop ?p pick lag ?inner req 2 (Some e1) w2'"
      using step0 step1 by (simp add: RetryDecorator_Send_def)

    \<comment> \<open>third attempt within the timeout: rejected without reaching the transport\<close>
    have B: "fst ?R = (None, Some circuit_open_error) \<and> calls (snd ?R) = calls w + 2
        \<and> state (breaker (snd ?R)) = StateOpen" if within: "time_Sub ?x 0 \<le> tmo"
    proof -
      have send2: "?inner req w2' = ((None, Some circuit_open_error), w2')"
      proof (rule CircuitBreakerDecorator_Send_open_rejected)
        show "state (breaker w2') = StateOpen" by (rule op)
        show "time_Since (clock w2') (lastFailureTime (breaker w2')) \<le> timeout (breaker w2')"
          using within by (simp only: measured tm)
      qed
      have "retry_loop ?p pick lag ?inner req 2 (Some e1) w2' = ((None, Some circuit_open_error), w2')"
        by (rule retry_loop_break)
           (simp_all add: m assms(2) send2 sr ShouldRetry_circuit_open_error)
      then show ?thesis
        by (simp add: start w2' cb2)
    qed

    \<comment> \<open>third attempt after the timeout: the breaker half-opens and the transport is called\<close>
    have C: "fst ?R = (None, snd (respond tr (calls w + 2))) \<and> calls (snd ?R) = calls w + 3"
      if after: "tmo < time_Sub ?x 0"
    proof -
      define w3 where "w3 = w2'\<lparr> clock := clock w2' + latency tr (calls w2'), calls := calls w2' + 1,
          breaker := onFailure (clock w2' + latency tr (calls w2'))
                       ((breaker w2')\<lparr> state := StateHalfOpen, successCount := 0 \<rparr>) \<rparr>"
      have send2: "?inner req w2' = ((resp2, Some e2), w3)"
        unfolding w3_def
      proof (rule CircuitBreakerDecorator_Send_half_open_failure)
        show "state (breaker w2') = StateOpen" by (rule op)
        show "timeout (breaker w2') < time_Since (clock w2') (lastFailureTime (breaker w2'))"
          using after by (simp only: measured tm)
        show "respond tr (calls w2') = (resp2, Some e2)"
          using r2 by (simp only: w2'(1))
      qed
      define w3' where "w3' = w3\<lparr> clock := clock w3 + max 0 (IGetDelay ?p 2) + int (lag 2) \<rparr>"
      have step2: "retry_loop ?p pick lag ?inner req 2 (Some e1) w2'
          = retry_loop ?p pick lag ?inner req (2 + 1) (Some e2) w3'"
        unfolding w3'_def
        by (rule retry_loop_retry) (simp_all add: m assms(2) send2 sr s2)
      have "retry_loop ?p pick lag ?inner req (2 + 1) (Some e2) w3' = ((None, Some e2), w3')"
        by (rule retry_loop_exit) (simp add: m)
      then have "?R = ((None, Some e2), w3')"
        by (simp only: start step2)
      then show ?thesis
        using r2 by (simp add: w3'_def w3_def w2'(1))
    qed
    show ?thesis using B C by blast
  qed
  show ?thesis
    using D BC by (simp only: ShouldRetry_circuit_open_error simp_thms) blast
qed

theorem RetryDecorator_over_breaker_third_attempt_witness:
  "fst (RetryDecorator_Send (RetryPolicy_methods amd64_conversion (NewRetryPolicy 3))
          (\<lambda>a. True) (\<lambda>a. 1000)
          (CircuitBreakerDecorator_Send
             (transport_Send \<lparr> respond = (\<lambda>k. (None, Some (HTTPErr (HTTPError None None 0 ''GET request failed'' (Some (NetError True)))))),
                               latency = (\<lambda>k. 5 * Second) \<rparr>))
          \<lparr> Method = ''GET'', URL = ''http://upstream/'', doneAt = None, ctxErr = Canceled \<rparr>
          \<lparr> clock = 0, calls = 0, breaker = NewCircuitBreaker 2 Second \<rparr>)
     = (None, Some circuit_open_error)
 \<and> calls (snd (RetryDecorator_Send (RetryPolicy_methods amd64_conversion (NewRetryPolicy 3))
          (\<lambda>a. True) (\<lambda>a. 1000)
          (CircuitBreakerDecorator_Send
             (transport_Send \<lparr> respond = (\<lambda>k. (None, Some (HTTPErr (HTTPError None None 0 ''GET request failed'' (Some (NetError True)))))),
                               latency = (\<lambda>k. 5 * Second) \<rparr>))
          \<lparr> Method = ''GET'', URL = ''http://upstream/'', doneAt = None, ctxErr = Canceled \<rparr>
          \<lparr> clock = 0, calls = 0, breaker = NewCircuitBreaker 2 Second \<rparr>))
     = 2
 \<and> calls (snd (RetryDecorator_Send (RetryPolicy_methods amd64_conversion (NewRetryPolicy 3))
          (\<lambda>a. True) (\<lambda>a. 1000)
          (CircuitBreakerDecorator_Send
             (transport_Send \<lparr> respond = (\<lambda>k. (None, Some (HTTPErr (HTTPError None None 0 ''GET request failed'' (Some (NetError True)))))),
                               latency = (\<lambda>k. 5 * Second) \<rparr>))
          \<lparr> Method = ''GET'', URL = ''http://upstream/'', doneAt = None, ctxErr = Canceled \<rparr>
          \<lparr> clock = 0, calls = 0, breaker = NewCircuitBreaker 2 (100 * Millisecond) \<rparr>))
     = 3
 \<and> calls (snd (RetryDecorator_Send (RetryPolicy_methods amd64_conversion (NewRetryPolicy 3))
          (\<lambda>a. True) (\<lambda>a. 1000)
          (CircuitBreakerDecorator_Send
             (transport_Send \<lparr> respond = (\<lambda>k. (None, Some (HTTPErr (HTTPError None None 404 ''GET request returned error status 404'' None)))),
                               latency = (\<lambda>k. 5 * Second) \<rparr>))
          \<lparr> Method = ''GET'', URL = ''http://upstream/'', doneAt = None, ctxErr = Canceled \<rparr>
          \<lparr> clock = 0, calls = 0, breaker = NewCircuitBreaker 2 Second \<rparr>))
     = 1"
proof -
  let ?e = "HTTPErr (HTTPError None None 0 ''GET request failed'' (Some (NetError True)))"
  let ?f = "HTTPErr (HTTPError None None 404 ''GET request returned error status 404'' None)"
  let ?tr = "\<lparr> respond = (\<lambda>k. (None, Some ?e)), latency = (\<lambda>k. 5 * Second) \<rparr> :: transport"
  let ?tf = "\<lparr> respond = (\<lambda>k. (None, Some ?f)), latency = (\<lambda>k. 5 * Second) \<rparr> :: transport"
  let ?req = "\<lparr> Method = ''GET'', URL = ''http://upstream/'', doneAt = None, ctxErr = Canceled \<rparr>"
  let ?w = "\<lparr> clock = 0, calls = 0, breaker = NewCircuitBreaker 2 Second \<rparr>"
  let ?v = "\<lparr> clock = 0, calls = 0, breaker = NewCircuitBreaker 2 (100 * Millisecond) \<rparr>"
  let ?rp = "NewRetryPolicy 3"
  have a: "maxAttempts ?rp = 3" by (simp add: NewRetryPolicy_def)
  have b: "doneAt ?req = None" by simp
  have c: "breaker ?w = NewCircuitBreaker 2 Second" by simp
  have c': "breaker ?v = NewCircuitBreaker 2 (100 * Millisecond)" by simp
  have d: "\<forall>k. snd (respond ?tr k) \<noteq> None" by simp
  have d': "\<forall>k. snd (respond ?tf k) \<noteq> None" by simp
  have again: "\<forall>k a. a < 3 \<longrightarrow> ShouldRetry ?rp (snd (respond ?tr k)) a"
    by (simp add: ShouldRetry_HTTPErr IsTimeout_def a)
  have x: "time_Sub (max 0 (GetDelay amd64_conversion ?rp 1) + int ((\<lambda>a. 1000) (1::int))) 0 = 100001000"
    by (simp add: GetDelay_default_1 Millisecond_def time_Sub_def minDuration_def maxDuration_def)
  have within: "time_Sub (max 0 (GetDelay amd64_conversion ?rp 1) + int ((\<lambda>a. 1000) (1::int))) 0 \<le> Second"
    unfolding x by (simp add: Second_def)
  have after: "100 * Millisecond < time_Sub (max 0 (GetDelay amd64_conversion ?rp 1) + int ((\<lambda>a. 1000) (1::int))) 0"
    unfolding x by (simp add: Millisecond_def)
  have no: "\<not> ShouldRetry ?rp (snd (respond ?tf (calls ?w))) 0"
    by (simp add: ShouldRetry_HTTPErr IsTimeout_def IsServerError_def NewRetryPolicy_def)
  note T1 = RetryDecorator_over_breaker_third_attempt
              [OF a b c d, of amd64_conversion "\<lambda>a. 1000" "\<lambda>a. True"]
  note T2 = RetryDecorator_over_breaker_third_attempt
              [OF a b c' d, of amd64_conversion "\<lambda>a. 1000" "\<lambda>a. True"]
  note T3 = RetryDecorator_over_breaker_third_attempt
              [OF a b c d', of amd64_conversion "\<lambda>a. 1000" "\<lambda>a. True"]
  from T1 [THEN conjunct2, THEN conjunct1] conjI [OF again within]
  have 1: "fst (RetryDecorator_Send (RetryPolicy_methods amd64_conversion ?rp) (\<lambda>a. True) (\<lambda>a. 1000)
                (CircuitBreakerDecorator_Send (transport_Send ?tr)) ?req ?w)
              = (None, Some circuit_open_error)
          \<and> calls (snd (RetryDecorator_Send (RetryPolicy_methods amd64_conversion ?rp) (\<lambda>a. True) (\<lambda>a. 1000)
                (CircuitBreakerDecorator_Send (transport_Send ?tr)) ?req ?w))
              = calls ?w + 2
          \<and> state (breaker (snd (RetryDecorator_Send (RetryPolicy_methods amd64_conversion ?rp) (\<lambda>a. True) (\<lambda>a. 1000)
                (CircuitBreakerDecorator_Send (transport_Send ?tr)) ?req ?w)))
              = StateOpen"
    by (rule mp)
  from T2 [THEN conjunct2, THEN conjunct2, THEN conjunct1] conjI [OF again after]
  have 2: "fst (RetryDecorator_Send (RetryPolicy_methods amd64_conversion ?rp) (\<lambda>a. True) (\<lambda>a. 1000)
                (CircuitBreakerDecorator_Send (transport_Send ?tr)) ?req ?v)
              = (None, snd (respond ?tr (calls ?v + 2)))
          \<and> calls (snd (RetryDecorator_Send (RetryPolicy_methods amd64_conversion ?rp) (\<lambda>a. True) (\<lambda>a. 1000)
                (CircuitBreakerDecorator_Send (transport_Send ?tr)) ?req ?v))
              = calls ?v + 3"
    by (rule mp)
  from T3 [THEN conjunct2, THEN conjunct2, THEN conjunct2] no
  have 3: "fst (RetryDecorator_Send (RetryPolicy_methods amd64_conversion ?rp) (\<lambda>a. True) (\<lambda>a. 1000)
                (CircuitBreakerDecorator_Send (transport_Send ?tf)) ?req ?w)
              = (None, snd (respond ?tf (calls ?w)))
          \<and> calls (snd (RetryDecorator_Send (RetryPolicy_methods amd64_conversion ?rp) (\<lambda>a. True) (\<lambda>a. 1000)
                (CircuitBreakerDecorator_Send (transport_Send ?tf)) ?req ?w))
              = calls ?w + 1
          \<and> state (breaker (snd (RetryDecorator_Send (RetryPolicy_methods amd64_conversion ?rp) (\<lambda>a. True) (\<lambda>a. 1000)
                (CircuitBreakerDecorator_Send (transport_Send ?tf)) ?req ?w)))
              = StateClosed"
    by (rule mp)
  show ?thesis
    using 1 2 3 by simp
qed

lemma retry_loop_error_without_response:
  "snd (fst (retry_loop p pick lag wrapped req attempt lastErr w)) \<noteq> None \<Longrightarrow>
   fst (fst (retry_loop p pick lag wrapped req attempt lastErr w)) = None"
proof (induction p pick lag wrapped req attempt lastErr w rule: retry_loop.induct)
  case (1 policy pick lag wrapped req attempt lastErr w)
  show ?case
  proof (cases "attempt < IMaxAttempts policy \<and> \<not> ctx_Done req (clock w)")
    case False
    then show ?thesis
      by (subst retry_loop.simps) (simp add: cancelled_def)
  next
    case True
    obtain resp err w1 where s: "wrapped req w = ((resp, err), w1)"
      by (metis prod.exhaust)
    obtain fired w2 where b: "select_After_or_Done req (pick attempt) (lag attempt) (IGetDelay policy attempt) w1 = (fired, w2)"
      by (metis prod.exhaust)
    show ?thesis
    proof (cases "err \<noteq> None \<and> IShouldRetry policy err attempt \<and> fired")
      case False
      with "1.prems" True s b show ?thesis
        by (subst retry_loop.simps, subst (asm) retry_loop.simps)
           (auto simp add: cancelled_def)
    next
      case t: True
      then obtain e where e: "err = Some e" by auto
      have eq: "retry_loop policy pick lag wrapped req attempt lastErr w
          = retry_loop policy pick lag wrapped req (attempt + 1) err w2"
        using True s b t by (subst retry_loop.simps) (simp add: e)
      have "fst (fst (retry_loop policy pick lag wrapped req (attempt + 1) err w2)) = None"
      proof (rule "1.IH" [of "(resp, err)" w1 resp err True w2])
        show "attempt < IMaxAttempts policy" "\<not> ctx_Done req (clock w)"
          using True by simp_all
        show "((resp, err), w1) = wrapped req w" using s by simp
        show "(resp, err) = (resp, err)" by simp
        show "err \<noteq> None" "\<not> \<not> IShouldRetry policy err attempt"
          using t by simp_all
        show "(True, w2) = select_After_or_Done req (pick attempt) (lag attempt) (IGetDelay policy attempt) w1"
          using b t by simp
        show "True = True" by simp
        show "snd (fst (retry_loop policy pick lag wrapped req (attempt + 1) err w2)) \<noteq> None"
          using "1.prems" unfolding eq .
      qed
      then show ?thesis by (simp add: eq)
    qed
  qed
qed

lemma RetryDecorator_Send_error_without_response:
  "snd (fst (RetryDecorator_Send p pick lag wrapped req w)) \<noteq> None \<Longrightarrow>
   fst (fst (RetryDecorator_Send p pick lag wrapped req w)) = None"
  unfolding RetryDecorator_Send_def by (rule retry_loop_error_without_response)

lemma RetryDecorator_Send_declined:
  assumes "0 < IMaxAttempts p" and "doneAt req = None"
    and "wrapped req w = ((resp, Some e), w1)" and "\<not> IShouldRetry p (Some e) 0"
  shows "RetryDecorator_Send p pick lag wrapped req w = ((None, Some e), w1)"
  unfolding RetryDecorator_Send_def using assms by (rule retry_loop_break)

lemma CircuitBreakerDecorator_Send_admitted:
  "canExecute (clock w) (breaker w) = (True, cb) \<Longrightarrow>
   fst (CircuitBreakerDecorator_Send wrapped req w) = fst (wrapped req (w\<lparr> breaker := cb \<rparr>))"
  by (simp add: CircuitBreakerDecorator_Send_def CircuitBreaker_Execute_def split: prod.splits)


end
